theory Spec2Isabelle
  imports Complex_Main
begin

section \<open>FlowBitAI: the vendor memory agent\<close>

text \<open>
  A shallow embedding of \<^verbatim>\<open>src/MemoryAgent.ts\<close> (operations \<^verbatim>\<open>process\<close> and
  \<^verbatim>\<open>learn\<close>), of the data model of \<^verbatim>\<open>types.ts\<close> and of the two
  \<^verbatim>\<open>MemoryStore\<close> implementations (the SQLite one and the JSON-file one).

  Conventions of the embedding.
  \<^item> A JavaScript string is a \<open>string\<close>: a list of code units below 256.
  \<^item> A JavaScript number is a \<open>jsnum\<close>: an exact rational, or one of the three
    non-finite values. Rounding of IEEE doubles is not represented. Numbers that the
    types declare and that are read from JSON (confidence, quantity, unit price,
    usage count) are finite, hence plain \<open>rat\<close> or \<open>int\<close>.
  \<^item> A value of type \<^verbatim>\<open>any\<close> is a \<open>jsval\<close>.
  \<^item> The audit trail of \<^verbatim>\<open>process\<close> carries wall-clock timestamps and rendered
    numbers; it takes no part in any decision and is left out of the result record.
    The \<^verbatim>\<open>lastUsed\<close> timestamp of a pattern is passed in by the caller.
  \<^item> The free-text \<^verbatim>\<open>reason\<close> of a Correction is kept as the message template
    together with its arguments (datatype \<open>reason\<close>).
\<close>

subsection \<open>Numbers and dynamic values\<close>

datatype jsnum = Num rat | PosInf | NegInf | NaN

fun jsNeg :: "jsnum \<Rightarrow> jsnum" where
  "jsNeg (Num a) = Num (- a)"
| "jsNeg PosInf = NegInf"
| "jsNeg NegInf = PosInf"
| "jsNeg NaN = NaN"

fun jsAdd :: "jsnum \<Rightarrow> jsnum \<Rightarrow> jsnum" where
  "jsAdd (Num a) (Num b) = Num (a + b)"
| "jsAdd NaN _ = NaN"
| "jsAdd _ NaN = NaN"
| "jsAdd PosInf NegInf = NaN"
| "jsAdd NegInf PosInf = NaN"
| "jsAdd PosInf _ = PosInf"
| "jsAdd NegInf _ = NegInf"
| "jsAdd _ PosInf = PosInf"
| "jsAdd _ NegInf = NegInf"

definition jsSub :: "jsnum \<Rightarrow> jsnum \<Rightarrow> jsnum" where
  "jsSub a b = jsAdd a (jsNeg b)"

text \<open>The sign of a number, for products and quotients with an infinity; a zero counts
  as positive zero.\<close>

fun jsNonNeg :: "jsnum \<Rightarrow> bool" where
  "jsNonNeg (Num a) = (0 \<le> a)"
| "jsNonNeg PosInf = True"
| "jsNonNeg NegInf = False"
| "jsNonNeg NaN = True"

definition signedInf :: "bool \<Rightarrow> jsnum" where
  "signedInf pos = (if pos then PosInf else NegInf)"

fun jsMul :: "jsnum \<Rightarrow> jsnum \<Rightarrow> jsnum" where
  "jsMul (Num a) (Num b) = Num (a * b)"
| "jsMul NaN _ = NaN"
| "jsMul _ NaN = NaN"
| "jsMul (Num a) y = (if a = 0 then NaN else signedInf ((0 < a) = jsNonNeg y))"
| "jsMul x (Num b) = (if b = 0 then NaN else signedInf (jsNonNeg x = (0 < b)))"
| "jsMul x y = signedInf (jsNonNeg x = jsNonNeg y)"

fun jsDiv :: "jsnum \<Rightarrow> jsnum \<Rightarrow> jsnum" where
  "jsDiv (Num a) (Num b) =
     (if b = 0 then (if a = 0 then NaN else signedInf (0 < a)) else Num (a / b))"
| "jsDiv NaN _ = NaN"
| "jsDiv _ NaN = NaN"
| "jsDiv (Num a) _ = Num 0"
| "jsDiv x (Num b) = signedInf (jsNonNeg x = (0 \<le> b))"
| "jsDiv _ _ = NaN"

fun jsAbs :: "jsnum \<Rightarrow> jsnum" where
  "jsAbs (Num a) = Num \<bar>a\<bar>"
| "jsAbs PosInf = PosInf"
| "jsAbs NegInf = PosInf"
| "jsAbs NaN = NaN"

text \<open>\<^verbatim>\<open>x > y\<close>: every comparison with NaN is false.\<close>

fun jsGreater :: "jsnum \<Rightarrow> jsnum \<Rightarrow> bool" where
  "jsGreater (Num a) (Num b) = (b < a)"
| "jsGreater NaN _ = False"
| "jsGreater _ NaN = False"
| "jsGreater PosInf y = (y \<noteq> PosInf)"
| "jsGreater NegInf _ = False"
| "jsGreater _ NegInf = True"
| "jsGreater _ PosInf = False"

text \<open>\<^verbatim>\<open>Number(x.toFixed(2))\<close>: the nearest multiple of 1/100, ties away from zero;
  a non-finite number is rendered by name and read back unchanged.\<close>

definition round2 :: "rat \<Rightarrow> rat" where
  "round2 r = (if 0 \<le> r then of_int \<lfloor>r * 100 + 1 / 2\<rfloor> / 100
               else - (of_int \<lfloor>- r * 100 + 1 / 2\<rfloor> / 100))"

fun toFixed2 :: "jsnum \<Rightarrow> jsnum" where
  "toFixed2 (Num a) = Num (round2 a)"
| "toFixed2 x = x"

datatype jsval = JUndefined | JNull | JStr string | JNum jsnum | JObject

text \<open>Truthiness of a value in a condition.\<close>

fun truthy :: "jsval \<Rightarrow> bool" where
  "truthy JUndefined = False"
| "truthy JNull = False"
| "truthy (JStr s) = (s \<noteq> [])"
| "truthy (JNum (Num a)) = (a \<noteq> 0)"
| "truthy (JNum NaN) = False"
| "truthy (JNum _) = True"
| "truthy JObject = True"

text \<open>\<^verbatim>\<open>a === b\<close>: structural, except that NaN differs from itself and two objects
  are compared by identity (the embedding has one opaque object marker; it is never
  compared).\<close>

fun strictEq :: "jsval \<Rightarrow> jsval \<Rightarrow> bool" where
  "strictEq (JNum NaN) _ = False"
| "strictEq _ (JNum NaN) = False"
| "strictEq a b = (a = b)"

text \<open>\<^verbatim>\<open>ToNumber\<close> on the operands of the tax arithmetic. The interface declares
  the four totals as numbers. \<^verbatim>\<open>null\<close> counts as 0 and \<^verbatim>\<open>undefined\<close> as NaN.
  A string in such a position (JavaScript would parse it, and \<^verbatim>\<open>+\<close> would
  concatenate) is outside the embedding and is read as NaN; the theorems on the tax
  check assume numeric totals.\<close>

fun toNumber :: "jsval \<Rightarrow> jsnum" where
  "toNumber (JNum n) = n"
| "toNumber JNull = Num 0"
| "toNumber _ = NaN"

subsection \<open>Strings\<close>

fun startsWith :: "string \<Rightarrow> string \<Rightarrow> bool" where
  "startsWith s [] = True"
| "startsWith [] (v # vs) = False"
| "startsWith (x # xs) (v # vs) = (x = v \<and> startsWith xs vs)"

text \<open>\<^verbatim>\<open>s.indexOf(v)\<close>; \<open>None\<close> is the result \<open>-1\<close>.\<close>

fun indexOf :: "string \<Rightarrow> string \<Rightarrow> nat option" where
  "indexOf [] v = (if v = [] then Some 0 else None)"
| "indexOf (x # xs) v =
     (if startsWith (x # xs) v then Some 0 else map_option Suc (indexOf xs v))"

text \<open>\<^verbatim>\<open>s.includes(v)\<close>.\<close>

definition strIncludes :: "string \<Rightarrow> string \<Rightarrow> bool" where
  "strIncludes s v = (indexOf s v \<noteq> None)"

definition endsWith :: "string \<Rightarrow> string \<Rightarrow> bool" where
  "endsWith s v = startsWith (rev s) (rev v)"

text \<open>\<^verbatim>\<open>s.substring(a, b)\<close> for \<open>a \<le> b\<close>.\<close>

definition substring :: "string \<Rightarrow> nat \<Rightarrow> nat \<Rightarrow> string" where
  "substring s a b = take (b - a) (drop a s)"

text \<open>White space of \<^verbatim>\<open>\s\<close> and of \<^verbatim>\<open>trim\<close> among the code units below 256:
  tab, line feed, vertical tab, form feed, carriage return, space, no-break space.\<close>

definition isSpace :: "char \<Rightarrow> bool" where
  "isSpace c = (of_char c \<in> {9, 10, 11, 12, 13, 32, 160 :: nat})"

definition isDigit :: "char \<Rightarrow> bool" where
  "isDigit c = (48 \<le> (of_char c :: nat) \<and> (of_char c :: nat) \<le> 57)"

definition trim :: "string \<Rightarrow> string" where
  "trim s = rev (dropWhile isSpace (rev (dropWhile isSpace s)))"

text \<open>\<^verbatim>\<open>toLowerCase\<close> on code units below 256: A-Z, and the Latin-1 capitals
  0xC0-0xDE without the multiplication sign 0xD7.\<close>

definition lowerChar :: "char \<Rightarrow> char" where
  "lowerChar c = (let n = (of_char c :: nat) in
     if (65 \<le> n \<and> n \<le> 90) \<or> (192 \<le> n \<and> n \<le> 222 \<and> n \<noteq> 215)
     then char_of (n + 32) else c)"

definition toLowerCase :: "string \<Rightarrow> string" where
  "toLowerCase s = map lowerChar s"

text \<open>Decimal rendering of an array index in a template string.\<close>

definition digitChar :: "nat \<Rightarrow> char" where
  "digitChar d = char_of (48 + d)"

function showNat :: "nat \<Rightarrow> string" where
  "showNat n = (if n < 10 then [digitChar n] else showNat (n div 10) @ [digitChar (n mod 10)])"
  by pat_completeness auto
termination
  by (relation "measure id") auto

declare showNat.simps [simp del]

subsection \<open>Data model (types.ts)\<close>

text \<open>A line item. \<open>description\<close> is optional (\<open>None\<close> when absent); \<open>sku\<close> is a
  string or null, and \<^verbatim>\<open>process\<close> assigns it the \<^verbatim>\<open>any\<close>-typed value of a
  memory rule. \<^verbatim>\<open>qtyDelivered\<close> is never read and is left out.\<close>

record LineItem =
  sku :: jsval
  description :: "string option"
  qty :: rat
  unitPrice :: rat

text \<open>The fields of an invoice are read and written by property name
  (\<^verbatim>\<open>fields[path]\<close>), so they are kept as a map from the property name to its value,
  \<open>JUndefined\<close> for a property that is absent. The line items keep their declared type.
  Property names inherited from the object prototype are not represented.\<close>

record InvoiceFields =
  props :: "string \<Rightarrow> jsval"
  lineItems :: "LineItem list"

record Invoice =
  invoiceId :: string
  vendor :: string
  inv_fields :: InvoiceFields
  confidence :: rat
  rawText :: string

record PurchaseOrder =
  poNumber :: string
  po_vendor :: string
  po_date :: string
  po_lineItems :: "LineItem list"

text \<open>Reference data; the delivery notes are never read.\<close>

record ReferenceData =
  purchaseOrders :: "PurchaseOrder list"

datatype reason =
    DuplicateSubmission
  | MemoryPattern string
  | MemorySkuMapping string jsval
  | MemoryStatic string
  | HeuristicPO
  | InclVatNet
  | RecalculatedTax
  | Human string

record Correction =
  c_field :: string
  c_from :: jsval
  c_to :: jsval
  c_reason :: reason

datatype decision = Approved | Rejected

record HumanCorrectionLog =
  log_invoiceId :: string
  log_vendor :: string
  corrections :: "Correction list"
  finalDecision :: decision

record ExtractionPattern =
  p_field :: string
  regexPattern :: string
  p_confidence :: rat
  p_usageCount :: int
  lastUsed :: string

record ValueCorrection =
  r_field :: string
  triggerValue :: jsval
  correctedValue :: jsval
  condition :: "string option"
  r_confidence :: rat
  r_usageCount :: int

record VendorMemory =
  vendorName :: string
  patterns :: "ExtractionPattern list"
  staticCorrections :: "ValueCorrection list"

record ProcessResult =
  normalizedInvoice :: InvoiceFields
  proposedCorrections :: "Correction list"
  requiresHumanReview :: bool
  reasoning :: string
  confidenceScore :: rat
  memoryUpdates :: "string list"

subsection \<open>The SQLite memory store\<close>

text \<open>The two tables; a row is the vendor column together with the other columns, in
  insertion order. A bound \<^verbatim>\<open>undefined\<close> or NaN is stored as NULL (\<open>JNull\<close>). The
  conversion of a bound number to text by the column affinity is not represented.\<close>

record MemoryStore =
  pattern_rows :: "(string \<times> ExtractionPattern) list"
  static_rows :: "(string \<times> ValueCorrection) list"

fun sqlBind :: "jsval \<Rightarrow> jsval" where
  "sqlBind JUndefined = JNull"
| "sqlBind (JNum NaN) = JNull"
| "sqlBind v = v"

text \<open>\<^verbatim>\<open>column = ?\<close>: never true when either side is NULL.\<close>

definition sqlEq :: "jsval \<Rightarrow> jsval \<Rightarrow> bool" where
  "sqlEq a b = (a \<noteq> JNull \<and> b \<noteq> JNull \<and> a = b)"

definition getVendorMemory :: "MemoryStore \<Rightarrow> string \<Rightarrow> VendorMemory" where
  "getVendorMemory st v =
     \<lparr> vendorName = v,
       patterns = map snd (filter (\<lambda>row. fst row = v) (pattern_rows st)),
       staticCorrections = map snd (filter (\<lambda>row. fst row = v) (static_rows st)) \<rparr>"

definition patternKey :: "string \<Rightarrow> ExtractionPattern \<Rightarrow> (string \<times> ExtractionPattern) \<Rightarrow> bool" where
  "patternKey v p row =
     (fst row = v \<and> p_field (snd row) = p_field p \<and> regexPattern (snd row) = regexPattern p)"

text \<open>The UPDATE of the first row the SELECT returned; the other rows are untouched.\<close>

fun updateFirst :: "('a \<Rightarrow> bool) \<Rightarrow> ('a \<Rightarrow> 'a) \<Rightarrow> 'a list \<Rightarrow> 'a list" where
  "updateFirst P f [] = []"
| "updateFirst P f (x # xs) = (if P x then f x # xs else x # updateFirst P f xs)"

definition reinforcePattern :: "string \<Rightarrow> (string \<times> ExtractionPattern) \<Rightarrow> (string \<times> ExtractionPattern)" where
  "reinforcePattern now row =
     (fst row, (snd row)\<lparr> p_usageCount := p_usageCount (snd row) + 1,
                          lastUsed := now,
                          p_confidence := min 1 (p_confidence (snd row) + 0.05) \<rparr>)"

definition addPattern :: "string \<Rightarrow> string \<Rightarrow> ExtractionPattern \<Rightarrow> MemoryStore \<Rightarrow> MemoryStore" where
  "addPattern now v p st =
     (if list_ex (patternKey v p) (pattern_rows st)
      then st\<lparr> pattern_rows := updateFirst (patternKey v p) (reinforcePattern now) (pattern_rows st) \<rparr>
      else st\<lparr> pattern_rows := pattern_rows st @ [(v, p)] \<rparr>)"

text \<open>\<^verbatim>\<open>const trigger = correction.triggerValue || null\<close>.\<close>

definition triggerOrNull :: "jsval \<Rightarrow> jsval" where
  "triggerOrNull t = (if truthy t then t else JNull)"

definition staticKey :: "string \<Rightarrow> ValueCorrection \<Rightarrow> (string \<times> ValueCorrection) \<Rightarrow> bool" where
  "staticKey v c row =
     (fst row = v \<and> r_field (snd row) = r_field c
      \<and> (sqlEq (triggerValue (snd row)) (triggerOrNull (triggerValue c))
          \<or> (triggerValue (snd row) = JNull \<and> triggerOrNull (triggerValue c) = JNull))
      \<and> sqlEq (correctedValue (snd row)) (sqlBind (correctedValue c)))"

definition reinforceStatic :: "(string \<times> ValueCorrection) \<Rightarrow> (string \<times> ValueCorrection)" where
  "reinforceStatic row =
     (fst row, (snd row)\<lparr> r_usageCount := r_usageCount (snd row) + 1,
                          r_confidence := min 1 (r_confidence (snd row) + 0.05) \<rparr>)"

definition addStaticCorrection :: "string \<Rightarrow> ValueCorrection \<Rightarrow> MemoryStore \<Rightarrow> MemoryStore" where
  "addStaticCorrection v c st =
     (if list_ex (staticKey v c) (static_rows st)
      then st\<lparr> static_rows := updateFirst (staticKey v c) reinforceStatic (static_rows st) \<rparr>
      else st\<lparr> static_rows := static_rows st
              @ [(v, c\<lparr> triggerValue := triggerOrNull (triggerValue c),
                        correctedValue := sqlBind (correctedValue c) \<rparr>)] \<rparr>)"

definition reset :: "MemoryStore \<Rightarrow> MemoryStore" where
  "reset st = \<lparr> pattern_rows = [], static_rows = [] \<rparr>"

subsection \<open>The JSON-file memory store\<close>

text \<open>One record per vendor, created on first access; \<^verbatim>\<open>find\<close> returns the first
  entry that satisfies the test and the entry is updated in place.\<close>

type_synonym FileStore = "string \<Rightarrow> VendorMemory option"

definition getVendorMemory_file :: "FileStore \<Rightarrow> string \<Rightarrow> VendorMemory" where
  "getVendorMemory_file d v =
     (case d v of Some m \<Rightarrow> m
      | None \<Rightarrow> \<lparr> vendorName = v, patterns = [], staticCorrections = [] \<rparr>)"

definition updateVendorMemory_file :: "FileStore \<Rightarrow> string \<Rightarrow> VendorMemory \<Rightarrow> FileStore" where
  "updateVendorMemory_file d v m = d(v \<mapsto> m)"

definition samePattern :: "ExtractionPattern \<Rightarrow> ExtractionPattern \<Rightarrow> bool" where
  "samePattern p q = (p_field q = p_field p \<and> regexPattern q = regexPattern p)"

definition reinforcePattern_file :: "string \<Rightarrow> ExtractionPattern \<Rightarrow> ExtractionPattern" where
  "reinforcePattern_file now q =
     q\<lparr> p_usageCount := p_usageCount q + 1, lastUsed := now,
        p_confidence := min 1 (p_confidence q + 0.05) \<rparr>"

definition addPattern_file :: "string \<Rightarrow> string \<Rightarrow> ExtractionPattern \<Rightarrow> FileStore \<Rightarrow> FileStore" where
  "addPattern_file now v p d =
     (let mem = getVendorMemory_file d v in
      updateVendorMemory_file d v
        (if list_ex (samePattern p) (patterns mem)
         then mem\<lparr> patterns := updateFirst (samePattern p) (reinforcePattern_file now) (patterns mem) \<rparr>
         else mem\<lparr> patterns := patterns mem @ [p] \<rparr>))"

definition sameStatic :: "ValueCorrection \<Rightarrow> ValueCorrection \<Rightarrow> bool" where
  "sameStatic c q =
     (r_field q = r_field c \<and> strictEq (triggerValue q) (triggerValue c)
      \<and> strictEq (correctedValue q) (correctedValue c))"

definition reinforceStatic_file :: "ValueCorrection \<Rightarrow> ValueCorrection" where
  "reinforceStatic_file q =
     q\<lparr> r_usageCount := r_usageCount q + 1,
        r_confidence := min 1 (r_confidence q + 0.05) \<rparr>"

definition addStaticCorrection_file :: "string \<Rightarrow> ValueCorrection \<Rightarrow> FileStore \<Rightarrow> FileStore" where
  "addStaticCorrection_file v c d =
     (let mem = getVendorMemory_file d v in
      updateVendorMemory_file d v
        (if list_ex (sameStatic c) (staticCorrections mem)
         then mem\<lparr> staticCorrections := updateFirst (sameStatic c) reinforceStatic_file (staticCorrections mem) \<rparr>
         else mem\<lparr> staticCorrections := staticCorrections mem @ [c] \<rparr>))"

definition reset_file :: "FileStore \<Rightarrow> FileStore" where
  "reset_file d = Map.empty"

subsection \<open>Regular expressions of the JavaScript runtime\<close>

text \<open>
  \<^verbatim>\<open>process\<close> runs stored pattern strings through \<^verbatim>\<open>new RegExp(p, 'i')\<close> and
  \<^verbatim>\<open>learn\<close> tests a pattern it has just built. The engine belongs to the runtime, not
  to the repository. It is represented for the pattern language that \<^verbatim>\<open>learn\<close>
  generates: literal characters, the escapes \<^verbatim>\<open>\d\<close>, \<^verbatim>\<open>\s\<close> and an escaped syntax
  character, the dot, the postfix quantifiers \<^verbatim>\<open>?\<close>, \<^verbatim>\<open>*\<close> and \<^verbatim>\<open>{n}\<close> on one
  of these, and at most one capture group. Matching is the backtracking search of the
  runtime: leftmost start, greedy quantifiers, letters compared without case. A pattern
  string outside this language is treated like one that does not compile.
\<close>

definition backslash :: char where
  "backslash = CHR 0x5C"

datatype cls = Lit char | AnyDigit | AnySpace | AnyChar

datatype quant = Once | Optional | Many | Times nat

datatype item = Atom cls quant | GroupOpen | GroupClose

datatype pmode = PNormal | PEscape | PBrace nat bool

fun quantify :: "quant \<Rightarrow> item list \<Rightarrow> item list option" where
  "quantify q (Atom c Once # acc) = Some (Atom c q # acc)"
| "quantify q acc = None"

definition digitVal :: "char \<Rightarrow> nat" where
  "digitVal c = of_char c - 48"

text \<open>One character of the pattern string; the items read so far are kept in reverse.\<close>

fun rxStep :: "item list \<times> pmode \<Rightarrow> char \<Rightarrow> (item list \<times> pmode) option" where
  "rxStep (acc, PEscape) c =
     (if c = CHR ''d'' then Some (Atom AnyDigit Once # acc, PNormal)
      else if c = CHR ''s'' then Some (Atom AnySpace Once # acc, PNormal)
      else if c \<in> set ''.*+?^${}()|[]/'' \<or> c = backslash then Some (Atom (Lit c) Once # acc, PNormal)
      else None)"
| "rxStep (acc, PBrace n seen) c =
     (if isDigit c then Some (acc, PBrace (10 * n + digitVal c) True)
      else if c = CHR ''}'' \<and> seen then map_option (\<lambda>a. (a, PNormal)) (quantify (Times n) acc)
      else None)"
| "rxStep (acc, PNormal) c =
     (if c = backslash then Some (acc, PEscape)
      else if c = CHR ''.'' then Some (Atom AnyChar Once # acc, PNormal)
      else if c = CHR ''('' then Some (GroupOpen # acc, PNormal)
      else if c = CHR '')'' then Some (GroupClose # acc, PNormal)
      else if c = CHR ''?'' then map_option (\<lambda>a. (a, PNormal)) (quantify Optional acc)
      else if c = CHR ''*'' then map_option (\<lambda>a. (a, PNormal)) (quantify Many acc)
      else if c = CHR ''{'' then (case quantify Once acc of Some _ \<Rightarrow> Some (acc, PBrace 0 False) | None \<Rightarrow> None)
      else if c \<in> set ''+[|^$}'' then None
      else Some (Atom (Lit c) Once # acc, PNormal))"

fun isGroupToken :: "item \<Rightarrow> bool" where
  "isGroupToken (Atom c q) = False"
| "isGroupToken g = True"

definition wellGrouped :: "item list \<Rightarrow> bool" where
  "wellGrouped its = (filter isGroupToken its \<in> {[], [GroupOpen, GroupClose]})"

fun rxParseFrom :: "item list \<times> pmode \<Rightarrow> string \<Rightarrow> (item list \<times> pmode) option" where
  "rxParseFrom st [] = Some st"
| "rxParseFrom st (c # cs) = (case rxStep st c of None \<Rightarrow> None | Some st' \<Rightarrow> rxParseFrom st' cs)"

definition parseRegex :: "string \<Rightarrow> item list option" where
  "parseRegex p =
     (case rxParseFrom ([], PNormal) p of
        Some (acc, PNormal) \<Rightarrow> (if wellGrouped (rev acc) then Some (rev acc) else None)
      | _ \<Rightarrow> None)"

text \<open>Canonical form of a code unit under the flag \<^verbatim>\<open>i\<close>: its upper-case form.\<close>

definition canon :: "char \<Rightarrow> char" where
  "canon c = (let n = (of_char c :: nat) in
     if (97 \<le> n \<and> n \<le> 122) \<or> (224 \<le> n \<and> n \<le> 254 \<and> n \<noteq> 247)
     then char_of (n - 32) else c)"

fun clsOk :: "cls \<Rightarrow> char \<Rightarrow> bool" where
  "clsOk (Lit c) x = (canon x = canon c)"
| "clsOk AnyDigit x = isDigit x"
| "clsOk AnySpace x = isSpace x"
| "clsOk AnyChar x = (x \<noteq> CHR 0x0A \<and> x \<noteq> CHR 0x0D)"

datatype capture = NotStarted | Capturing string | Captured string

fun pushCap :: "capture \<Rightarrow> char \<Rightarrow> capture" where
  "pushCap (Capturing acc) x = Capturing (x # acc)"
| "pushCap c x = c"

fun closeCap :: "capture \<Rightarrow> capture" where
  "closeCap (Capturing acc) = Captured (rev acc)"
| "closeCap c = c"

text \<open>A match of the items at the start of the text, with the state of group 1.\<close>

fun rxMatch :: "item list \<Rightarrow> string \<Rightarrow> capture \<Rightarrow> capture option" where
  "rxMatch [] s cap = Some cap"
| "rxMatch (GroupOpen # its) s cap = rxMatch its s (Capturing [])"
| "rxMatch (GroupClose # its) s cap = rxMatch its s (closeCap cap)"
| "rxMatch (Atom k Once # its) [] cap = None"
| "rxMatch (Atom k Once # its) (x # xs) cap =
     (if clsOk k x then rxMatch its xs (pushCap cap x) else None)"
| "rxMatch (Atom k Optional # its) [] cap = rxMatch its [] cap"
| "rxMatch (Atom k Optional # its) (x # xs) cap =
     (if clsOk k x
      then (case rxMatch its xs (pushCap cap x) of Some r \<Rightarrow> Some r | None \<Rightarrow> rxMatch its (x # xs) cap)
      else rxMatch its (x # xs) cap)"
| "rxMatch (Atom k Many # its) [] cap = rxMatch its [] cap"
| "rxMatch (Atom k Many # its) (x # xs) cap =
     (if clsOk k x
      then (case rxMatch (Atom k Many # its) xs (pushCap cap x) of
              Some r \<Rightarrow> Some r | None \<Rightarrow> rxMatch its (x # xs) cap)
      else rxMatch its (x # xs) cap)"
| "rxMatch (Atom k (Times 0) # its) s cap = rxMatch its s cap"
| "rxMatch (Atom k (Times (Suc n)) # its) [] cap = None"
| "rxMatch (Atom k (Times (Suc n)) # its) (x # xs) cap =
     (if clsOk k x then rxMatch (Atom k (Times n) # its) xs (pushCap cap x) else None)"

fun rxSearch :: "item list \<Rightarrow> string \<Rightarrow> capture option" where
  "rxSearch its [] = rxMatch its [] NotStarted"
| "rxSearch its (x # xs) =
     (case rxMatch its (x # xs) NotStarted of Some r \<Rightarrow> Some r | None \<Rightarrow> rxSearch its xs)"

text \<open>\<^verbatim>\<open>extractWithRegex\<close>: \<^verbatim>\<open>match ? match[1] : null\<close>, and null when the pattern
  does not compile. Without a group, \<^verbatim>\<open>match[1]\<close> is undefined.\<close>

definition extractWithRegex :: "string \<Rightarrow> string \<Rightarrow> jsval" where
  "extractWithRegex text patternStr =
     (case parseRegex patternStr of
        None \<Rightarrow> JNull
      | Some its \<Rightarrow>
          (case rxSearch its text of
             None \<Rightarrow> JNull
           | Some (Captured g) \<Rightarrow> JStr g
           | Some _ \<Rightarrow> JUndefined))"

subsection \<open>Dates of the JavaScript runtime\<close>

text \<open>
  \<^verbatim>\<open>new Date(s).getTime()\<close> for a date-only ISO string \<^verbatim>\<open>YYYY-MM-DD\<close> of a calendar
  date: midnight UTC in milliseconds since the epoch. \<open>None\<close> is the time value NaN
  of an invalid date. Other spellings, which the fallback parser of an engine may
  accept, are treated as invalid.
\<close>

definition digitsVal :: "string \<Rightarrow> nat" where
  "digitsVal ds = foldl (\<lambda>n c. 10 * n + digitVal c) 0 ds"

definition isLeap :: "int \<Rightarrow> bool" where
  "isLeap y = (y mod 4 = 0 \<and> (y mod 100 \<noteq> 0 \<or> y mod 400 = 0))"

definition daysInMonth :: "int \<Rightarrow> int \<Rightarrow> int" where
  "daysInMonth y m =
     (if m = 2 then (if isLeap y then 29 else 28)
      else if m = 4 \<or> m = 6 \<or> m = 9 \<or> m = 11 then 30 else 31)"

text \<open>Days since 1970-01-01 of a date of the proleptic Gregorian calendar.\<close>

definition daysFromCivil :: "int \<Rightarrow> int \<Rightarrow> int \<Rightarrow> int" where
  "daysFromCivil y m d =
     (let y' = (if m \<le> 2 then y - 1 else y);
          era = y' div 400;
          yoe = y' - era * 400;
          mp = (m + 9) mod 12;
          doy = (153 * mp + 2) div 5 + d - 1;
          doe = yoe * 365 + yoe div 4 - yoe div 100 + doy
      in era * 146097 + doe - 719468)"

definition msPerDay :: int where
  "msPerDay = 1000 * 60 * 60 * 24"

definition isIsoDate :: "string \<Rightarrow> bool" where
  "isIsoDate s =
     (length s = 10 \<and> list_all isDigit (take 4 s) \<and> s ! 4 = CHR ''-''
      \<and> list_all isDigit (take 2 (drop 5 s)) \<and> s ! 7 = CHR ''-''
      \<and> list_all isDigit (drop 8 s))"

definition newDate :: "string \<Rightarrow> int option" where
  "newDate s =
     (if isIsoDate s then
        (let y = int (digitsVal (take 4 s));
             m = int (digitsVal (take 2 (drop 5 s)));
             d = int (digitsVal (drop 8 s))
         in if 1 \<le> m \<and> m \<le> 12 \<and> 1 \<le> d \<and> d \<le> daysInMonth y m
            then Some (daysFromCivil y m d * msPerDay) else None)
      else None)"

subsection \<open>MemoryAgent: helpers\<close>

definition getFieldValue :: "InvoiceFields \<Rightarrow> string \<Rightarrow> jsval" where
  "getFieldValue f path =
     (if strIncludes path ''['' then JNull
      else if path = ''lineItems'' then JObject
      else props f path)"

text \<open>\<^verbatim>\<open>process\<close> never calls the setter with the path \<^verbatim>\<open>lineItems\<close>: for a
  pattern the array is not a missing value, and a static rule with this path takes the
  line-item branch.\<close>

definition setFieldValue :: "InvoiceFields \<Rightarrow> string \<Rightarrow> jsval \<Rightarrow> InvoiceFields" where
  "setFieldValue f path v =
     (if strIncludes path ''['' then f else f\<lparr> props := (props f)(path := v) \<rparr>)"

text \<open>\<^verbatim>\<open>s.split(c)\<close> for a one-character separator.\<close>

fun splitOn :: "char \<Rightarrow> string \<Rightarrow> string list" where
  "splitOn c [] = [[]]"
| "splitOn c (x # xs) =
     (if x = c then [] # splitOn c xs
      else (case splitOn c xs of w # ws \<Rightarrow> (x # w) # ws | [] \<Rightarrow> [[x]]))"

text \<open>An element of an array interpolated into a template string.\<close>

definition partOr :: "string list \<Rightarrow> nat \<Rightarrow> string" where
  "partOr parts i = (if i < length parts then parts ! i else ''undefined'')"

text \<open>The result of \<^verbatim>\<open>parseDate\<close>: null, or a Date object that is invalid or has a
  time value. The argument is a string by its declared type; another value that is
  not falsy has no \<^verbatim>\<open>includes\<close> method and is read here as an invalid date.\<close>

datatype jsdate = DateNull | DateInvalid | DateAt int

definition dateOf :: "int option \<Rightarrow> jsdate" where
  "dateOf t = (case t of None \<Rightarrow> DateInvalid | Some ms \<Rightarrow> DateAt ms)"

definition parseDate :: "jsval \<Rightarrow> jsdate" where
  "parseDate dateStr =
     (if \<not> truthy dateStr then DateNull
      else (case dateStr of
              JStr s \<Rightarrow>
                (if strIncludes s ''.''
                 then (let parts = splitOn (CHR ''.'') s
                       in dateOf (newDate (partOr parts 2 @ ''-'' @ partOr parts 1 @ ''-'' @ partOr parts 0)))
                 else dateOf (newDate s))
            | _ \<Rightarrow> DateInvalid))"

text \<open>\<^verbatim>\<open>invDate >= poDate && diffDays < 60\<close> with
  \<^verbatim>\<open>diffDays = Math.ceil(Math.abs(inv - po) / msPerDay)\<close>; false when a time is NaN.\<close>

definition ceilDiv :: "int \<Rightarrow> int \<Rightarrow> int" where
  "ceilDiv a b = - ((- a) div b)"

fun dateWindow :: "jsdate \<Rightarrow> jsdate \<Rightarrow> bool" where
  "dateWindow (DateAt invMs) (DateAt poMs) = (invMs \<ge> poMs \<and> ceilDiv \<bar>invMs - poMs\<bar> msPerDay < 60)"
| "dateWindow _ _ = False"

definition skuMatch :: "LineItem list \<Rightarrow> LineItem list \<Rightarrow> bool" where
  "skuMatch invItems poItems =
     list_ex (\<lambda>poItem. list_ex (\<lambda>invItem. strictEq (sku invItem) (sku poItem)) invItems) poItems"

definition fuzzyMatch :: "LineItem list \<Rightarrow> LineItem list \<Rightarrow> bool" where
  "fuzzyMatch invItems poItems =
     list_ex (\<lambda>poItem. list_ex (\<lambda>invItem.
        \<bar>unitPrice invItem - unitPrice poItem\<bar> < 0.01 \<and> qty invItem = qty poItem) invItems) poItems"

text \<open>The loop over the candidates of \<^verbatim>\<open>findMatchingPOWithVendor\<close>.\<close>

fun matchCandidates :: "jsdate \<Rightarrow> LineItem list \<Rightarrow> PurchaseOrder list \<Rightarrow> PurchaseOrder option" where
  "matchCandidates invDate invItems [] = None"
| "matchCandidates invDate invItems (po # rest) =
     (let poDate = parseDate (JStr (po_date po)) in
      if poDate = DateNull then matchCandidates invDate invItems rest
      else if dateWindow invDate poDate \<and> skuMatch invItems (po_lineItems po) then Some po
      else if dateWindow invDate poDate \<and> fuzzyMatch invItems (po_lineItems po) then Some po
      else matchCandidates invDate invItems rest)"

definition findMatchingPOWithVendor :: "InvoiceFields \<Rightarrow> string \<Rightarrow> ReferenceData \<Rightarrow> PurchaseOrder option" where
  "findMatchingPOWithVendor invoice v refData =
     (let invDate = parseDate (props invoice ''invoiceDate'') in
      if invDate = DateNull then None
      else matchCandidates invDate (lineItems invoice)
             (filter (\<lambda>po. po_vendor po = v) (purchaseOrders refData)))"

subsection \<open>MemoryAgent.process\<close>

text \<open>\<^verbatim>\<open>JSON.parse(JSON.stringify(invoice.fields))\<close>: a non-finite number becomes null,
  every other value is copied.\<close>

fun jsonValue :: "jsval \<Rightarrow> jsval" where
  "jsonValue (JNum (Num a)) = JNum (Num a)"
| "jsonValue (JNum n) = JNull"
| "jsonValue v = v"

definition jsonCopy :: "InvoiceFields \<Rightarrow> InvoiceFields" where
  "jsonCopy f =
     \<lparr> props = (\<lambda>k. jsonValue (props f k)),
       lineItems = map (\<lambda>it. it\<lparr> sku := jsonValue (sku it) \<rparr>) (lineItems f) \<rparr>"

text \<open>The local variables that the steps of \<^verbatim>\<open>process\<close> update.\<close>

record Working =
  normalized :: InvoiceFields
  proposed :: "Correction list"
  review :: bool
  reasoningText :: string

text \<open>Step 1: the duplicate check.\<close>

definition isDuplicateOf :: "Invoice \<Rightarrow> Invoice \<Rightarrow> bool" where
  "isDuplicateOf invoice past =
     (vendor past = vendor invoice
      \<and> strictEq (props (inv_fields past) ''invoiceNumber'') (props (inv_fields invoice) ''invoiceNumber'')
      \<and> invoiceId past \<noteq> invoiceId invoice)"

definition duplicateResult :: "Invoice \<Rightarrow> Invoice \<Rightarrow> ProcessResult" where
  "duplicateResult invoice duplicate =
     \<lparr> normalizedInvoice = jsonCopy (inv_fields invoice),
       proposedCorrections =
         [\<lparr> c_field = ''invoiceNumber'',
            c_from = props (inv_fields invoice) ''invoiceNumber'',
            c_to = JStr ''DUPLICATE-FLAG'',
            c_reason = DuplicateSubmission \<rparr>],
       requiresHumanReview = True,
       reasoning = trim (''Potential duplicate of invoice '' @ invoiceId duplicate @ ''. ''),
       confidenceScore = 0,
       memoryUpdates = [] \<rparr>"

text \<open>Step 2a: one learned pattern.\<close>

definition isMissing :: "jsval \<Rightarrow> bool" where
  "isMissing v = (v = JNull \<or> v = JUndefined \<or> v = JStr [])"

definition applyPattern :: "string \<Rightarrow> Working \<Rightarrow> ExtractionPattern \<Rightarrow> Working" where
  "applyPattern raw w pattern =
     (let currentVal = getFieldValue (normalized w) (p_field pattern) in
      if isMissing currentVal then
        (let extracted = extractWithRegex raw (regexPattern pattern) in
         if truthy extracted then
           w\<lparr> proposed := proposed w @
                 [\<lparr> c_field = p_field pattern, c_from = currentVal, c_to = extracted,
                    c_reason = MemoryPattern (p_field pattern) \<rparr>],
              normalized := setFieldValue (normalized w) (p_field pattern) extracted \<rparr>
         else w)
      else w)"

definition applyPatterns :: "string \<Rightarrow> ExtractionPattern list \<Rightarrow> Working \<Rightarrow> Working" where
  "applyPatterns raw ps w = foldl (applyPattern raw) w ps"

text \<open>Step 2b: one static correction. The line-item branch visits the items in order,
  with their index. The trigger is the argument of \<^verbatim>\<open>description.includes\<close>; a trigger
  that is not a string would be rendered to text there, which is not represented: such
  a rule matches no description here.\<close>

definition skuRuleFires :: "ValueCorrection \<Rightarrow> LineItem \<Rightarrow> bool" where
  "skuRuleFires rule it =
     (endsWith (r_field rule) ''.sku'' \<and> truthy (triggerValue rule)
      \<and> (case description it of
            None \<Rightarrow> False
          | Some d \<Rightarrow> d \<noteq> [] \<and> (case triggerValue rule of JStr t \<Rightarrow> strIncludes d t | _ \<Rightarrow> False))
      \<and> \<not> truthy (sku it))"

fun applySkuRule :: "ValueCorrection \<Rightarrow> nat \<Rightarrow> LineItem list \<Rightarrow> LineItem list \<times> Correction list" where
  "applySkuRule rule i [] = ([], [])"
| "applySkuRule rule i (it # its) =
     (let (its', cs) = applySkuRule rule (Suc i) its in
      if skuRuleFires rule it
      then (it\<lparr> sku := correctedValue rule \<rparr> # its',
            \<lparr> c_field = ''lineItems['' @ showNat i @ ''].sku'', c_from = sku it,
              c_to = correctedValue rule,
              c_reason = MemorySkuMapping (the (description it)) (correctedValue rule) \<rparr> # cs)
      else (it # its', cs))"

definition applyStatic :: "Working \<Rightarrow> ValueCorrection \<Rightarrow> Working" where
  "applyStatic w rule =
     (if strIncludes (r_field rule) ''lineItems'' then
        (let (its', cs) = applySkuRule rule 0 (lineItems (normalized w)) in
         w\<lparr> proposed := proposed w @ cs,
            normalized := (normalized w)\<lparr> lineItems := its' \<rparr> \<rparr>)
      else
        (let currentVal = getFieldValue (normalized w) (r_field rule) in
         if currentVal = JNull \<or> condition rule = Some ''always'' then
           w\<lparr> proposed := proposed w @
                 [\<lparr> c_field = r_field rule, c_from = currentVal, c_to = correctedValue rule,
                    c_reason = MemoryStatic (r_field rule) \<rparr>],
              normalized := setFieldValue (normalized w) (r_field rule) (correctedValue rule) \<rparr>
         else w))"

definition applyStatics :: "ValueCorrection list \<Rightarrow> Working \<Rightarrow> Working" where
  "applyStatics rules w = foldl applyStatic w rules"

definition applyMemory :: "string \<Rightarrow> VendorMemory \<Rightarrow> Working \<Rightarrow> Working" where
  "applyMemory raw memory w = applyStatics (staticCorrections memory) (applyPatterns raw (patterns memory) w)"

text \<open>Step 3a: purchase-order matching.\<close>

definition poMatching :: "string \<Rightarrow> ReferenceData \<Rightarrow> Working \<Rightarrow> Working" where
  "poMatching v refData w =
     (if \<not> truthy (props (normalized w) ''poNumber'') then
        (case findMatchingPOWithVendor (normalized w) v refData of
           Some candidatePO \<Rightarrow>
             w\<lparr> proposed := proposed w @
                   [\<lparr> c_field = ''poNumber'', c_from = JNull, c_to = JStr (poNumber candidatePO),
                      c_reason = HeuristicPO \<rparr>],
                normalized := (normalized w)\<lparr> props := (props (normalized w))(''poNumber'' := JStr (poNumber candidatePO)) \<rparr> \<rparr>
         | None \<Rightarrow> w)
      else w)"

text \<open>Step 3b: tax validation.\<close>

definition taxCalcDiff :: "InvoiceFields \<Rightarrow> jsnum" where
  "taxCalcDiff f =
     jsAbs (jsSub (jsMul (toNumber (props f ''netTotal'')) (jsAdd (Num 1) (toNumber (props f ''taxRate''))))
                  (toNumber (props f ''grossTotal'')))"

definition sumDiff :: "InvoiceFields \<Rightarrow> jsnum" where
  "sumDiff f =
     jsAbs (jsSub (jsAdd (toNumber (props f ''netTotal'')) (toNumber (props f ''taxTotal'')))
                  (toNumber (props f ''grossTotal'')))"

definition inclVatText :: "string \<Rightarrow> bool" where
  "inclVatText raw =
     (let lcText = toLowerCase raw in strIncludes lcText ''incl. vat'' \<or> strIncludes lcText ''mwst. inkl'')"

definition newNet :: "InvoiceFields \<Rightarrow> jsnum" where
  "newNet f = toFixed2 (jsDiv (toNumber (props f ''grossTotal'')) (jsAdd (Num 1) (toNumber (props f ''taxRate''))))"

definition newTax :: "InvoiceFields \<Rightarrow> jsnum" where
  "newTax f = toFixed2 (jsSub (toNumber (props f ''grossTotal'')) (newNet f))"

definition sumCheck :: "Working \<Rightarrow> Working" where
  "sumCheck w =
     (if jsGreater (sumDiff (normalized w)) (Num 1)
      then w\<lparr> review := True,
              reasoningText := reasoningText w @ ''Totals do not sum up (Net + Tax != Gross). '' \<rparr>
      else w)"

definition vatCheck :: "string \<Rightarrow> InvoiceFields \<Rightarrow> Working \<Rightarrow> Working" where
  "vatCheck raw f w =
     (if jsGreater (taxCalcDiff f) (Num 1) then
        (if inclVatText raw then
           w\<lparr> proposed := proposed w @
                 [\<lparr> c_field = ''netTotal'', c_from = props f ''netTotal'', c_to = JNum (newNet f),
                    c_reason = InclVatNet \<rparr>,
                  \<lparr> c_field = ''taxTotal'', c_from = props f ''taxTotal'', c_to = JNum (newTax f),
                    c_reason = RecalculatedTax \<rparr>],
              normalized := (normalized w)\<lparr> props := (props (normalized w))
                   (''netTotal'' := JNum (newNet f), ''taxTotal'' := JNum (newTax f)) \<rparr> \<rparr>
         else w\<lparr> review := True,
                 reasoningText := reasoningText w @ ''Tax calculation invalid (Net * Rate != Gross). '' \<rparr>)
      else w)"

text \<open>Both differences are computed from the document as it is before either check.\<close>

definition taxValidation :: "string \<Rightarrow> Working \<Rightarrow> Working" where
  "taxValidation raw w = vatCheck raw (normalized w) (sumCheck w)"

text \<open>Step 4: scoring and decision.\<close>

definition criticalMissing :: "InvoiceFields \<Rightarrow> bool" where
  "criticalMissing f =
     (\<not> truthy (props f ''invoiceNumber'') \<or> \<not> truthy (props f ''invoiceDate'')
      \<or> \<not> truthy (props f ''currency''))"

definition score :: "rat \<Rightarrow> Correction list \<Rightarrow> rat" where
  "score upstream cs = min 0.99 (if cs \<noteq> [] then upstream + 0.1 else upstream)"

definition scoring :: "rat \<Rightarrow> Working \<Rightarrow> ProcessResult" where
  "scoring upstream w =
     (let r1 = (if proposed w \<noteq> []
                then reasoningText w @ ''Applied corrections based on memory/heuristics. ''
                else reasoningText w);
          r2 = (if criticalMissing (normalized w) then r1 @ ''Critical fields missing. '' else r1)
      in \<lparr> normalizedInvoice = normalized w,
           proposedCorrections = proposed w,
           requiresHumanReview =
             (review w \<or> criticalMissing (normalized w) \<or> score upstream (proposed w) < 0.8),
           reasoning = trim r2,
           confidenceScore = score upstream (proposed w),
           memoryUpdates = [] \<rparr>)"

definition initial :: "Invoice \<Rightarrow> Working" where
  "initial invoice =
     \<lparr> normalized = jsonCopy (inv_fields invoice), proposed = [], review = False, reasoningText = [] \<rparr>"

definition afterMemory :: "Invoice \<Rightarrow> MemoryStore \<Rightarrow> Working" where
  "afterMemory invoice store =
     applyMemory (rawText invoice) (getVendorMemory store (vendor invoice)) (initial invoice)"

definition process :: "Invoice \<Rightarrow> ReferenceData \<Rightarrow> Invoice list \<Rightarrow> MemoryStore \<Rightarrow> ProcessResult" where
  "process invoice referenceData pastInvoices store =
     (case find (isDuplicateOf invoice) pastInvoices of
        Some duplicate \<Rightarrow> duplicateResult invoice duplicate
      | None \<Rightarrow>
          scoring (confidence invoice)
            (taxValidation (rawText invoice)
              (poMatching (vendor invoice) referenceData (afterMemory invoice store))))"

subsection \<open>MemoryAgent.learn\<close>

text \<open>\<^verbatim>\<open>escapeRegExp\<close>: a backslash before each character of the class
  \<^verbatim>\<open>[.*+?^${}()|[\\]\<close> (the closing bracket is not in the class).\<close>

definition escapeRegExp :: "string \<Rightarrow> string" where
  "escapeRegExp s =
     concat (map (\<lambda>c. if c \<in> set ''.*+?^${}()|['' \<or> c = backslash then [backslash, c] else [c]) s)"

text \<open>\<^verbatim>\<open>escapedValue.replace(/\d/g, '\\d')\<close>.\<close>

definition generalizeDigits :: "string \<Rightarrow> string" where
  "generalizeDigits s = concat (map (\<lambda>c. if isDigit c then [backslash, CHR ''d''] else [c]) s)"

text \<open>The candidate spellings of the corrected value.\<close>

definition searchValues :: "string \<Rightarrow> string list" where
  "searchValues t =
     (if isIsoDate t then
        (let y = take 4 t; m = take 2 (drop 5 t); d = drop 8 t
         in [t, d @ ''.'' @ m @ ''.'' @ y, d @ ''/'' @ m @ ''/'' @ y])
      else [t])"

text \<open>The loop over the spellings stops at the first one that occurs in the text.\<close>

fun firstFound :: "string \<Rightarrow> string list \<Rightarrow> (string \<times> nat) option" where
  "firstFound raw [] = None"
| "firstFound raw (val # vals) =
     (case indexOf raw val of Some index \<Rightarrow> Some (val, index) | None \<Rightarrow> firstFound raw vals)"

text \<open>The characters of the label: the class in the source reads
  \<^verbatim>\<open>[A-Za-z...]\<close> followed by eight more code points, of which U+00A4 and U+00B6 are
  below 256.\<close>

definition isLabelChar :: "char \<Rightarrow> bool" where
  "isLabelChar c = (let n = (of_char c :: nat) in
     (65 \<le> n \<and> n \<le> 90) \<or> (97 \<le> n \<and> n \<le> 122) \<or> n = 164 \<or> n = 182)"

definition cleanContext :: "string \<Rightarrow> nat \<Rightarrow> string" where
  "cleanContext raw index =
     (let windowSize = 25;
          start = index - windowSize;
          context = substring raw start index
      in trim (map (\<lambda>c. if c = CHR 0x0A then CHR '' '' else c) context))"

text \<open>The match of \<^verbatim>\<open>/([A-Za-z...]+):?\s*$/\<close>: from the end, white space, at most one
  colon, and the longest run of label characters, which is group 1.\<close>

definition labelMatch :: "string \<Rightarrow> string option" where
  "labelMatch ctx =
     (let r = dropWhile isSpace (rev ctx);
          r' = (case r of c # t \<Rightarrow> (if c = CHR '':'' then t else r) | [] \<Rightarrow> r);
          lab = takeWhile isLabelChar r'
      in if lab = [] then None else Some (rev lab))"

text \<open>An unanchored test for a shape, character by character.\<close>

fun shapeAt :: "(char \<Rightarrow> bool) list \<Rightarrow> string \<Rightarrow> bool" where
  "shapeAt [] s = True"
| "shapeAt (p # ps) [] = False"
| "shapeAt (p # ps) (x # xs) = (p x \<and> shapeAt ps xs)"

fun containsShape :: "(char \<Rightarrow> bool) list \<Rightarrow> string \<Rightarrow> bool" where
  "containsShape ps [] = shapeAt ps []"
| "containsShape ps (x # xs) = (shapeAt ps (x # xs) \<or> containsShape ps xs)"

definition dateShape :: "char \<Rightarrow> (char \<Rightarrow> bool) list" where
  "dateShape sep =
     [isDigit, isDigit, (\<lambda>c. c = sep), isDigit, isDigit, (\<lambda>c. c = sep),
      isDigit, isDigit, isDigit, isDigit]"

definition dottedDatePattern :: string where
  "dottedDatePattern =
     ''('' @ [backslash] @ ''d{2}'' @ [backslash] @ ''.'' @ [backslash] @ ''d{2}''
         @ [backslash] @ ''.'' @ [backslash] @ ''d{4})''"

definition slashedDatePattern :: string where
  "slashedDatePattern =
     ''('' @ [backslash] @ ''d{2}/'' @ [backslash] @ ''d{2}/'' @ [backslash] @ ''d{4})''"

definition valuePattern :: "string \<Rightarrow> string" where
  "valuePattern val =
     (if containsShape (dateShape (CHR ''.'')) val then dottedDatePattern
      else if containsShape (dateShape (CHR ''/'')) val then slashedDatePattern
      else ''('' @ generalizeDigits (escapeRegExp val) @ '')'')"

definition labelledRegex :: "string \<Rightarrow> string \<Rightarrow> string" where
  "labelledRegex label val = label @ '':?'' @ [backslash] @ ''s*'' @ valuePattern val"

text \<open>\<^verbatim>\<open>s.split(/\s+/)\<close>: the fields between runs of white space.\<close>

fun splitWs :: "bool \<Rightarrow> string \<Rightarrow> string \<Rightarrow> string list" where
  "splitWs inSpace cur [] = [rev cur]"
| "splitWs inSpace cur (x # xs) =
     (if isSpace x then (if inSpace then splitWs True cur xs else rev cur # splitWs True [] xs)
      else splitWs False (x # cur) xs)"

fun joinWith :: "string \<Rightarrow> string list \<Rightarrow> string" where
  "joinWith sep [] = []"
| "joinWith sep [w] = w"
| "joinWith sep (w # ws) = w @ sep @ joinWith sep ws"

text \<open>\<^verbatim>\<open>rawText.match(new RegExp(flexiblePattern, 'i'))\<close> as a condition.\<close>

definition regexFound :: "string \<Rightarrow> string \<Rightarrow> bool" where
  "regexFound text patternStr =
     (case parseRegex patternStr of None \<Rightarrow> False | Some its \<Rightarrow> rxSearch its text \<noteq> None)"

text \<open>Part 1 of the loop body: text extraction learning.\<close>

definition learnPattern :: "string \<Rightarrow> Invoice \<Rightarrow> Correction \<Rightarrow> MemoryStore \<Rightarrow> MemoryStore" where
  "learnPattern now invoice c st =
     (let minLength = (if c_field c = ''currency'' then 3 else 4 :: nat) in
      case c_to c of
        JStr t \<Rightarrow>
          (if length t \<ge> minLength then
             (case firstFound (rawText invoice) (searchValues t) of
                Some (val, index) \<Rightarrow>
                  (case labelMatch (cleanContext (rawText invoice) index) of
                     Some label \<Rightarrow>
                       addPattern now (vendor invoice)
                         \<lparr> p_field = c_field c, regexPattern = labelledRegex label val,
                           p_confidence = 0.6, p_usageCount = 1, lastUsed = now \<rparr> st
                   | None \<Rightarrow> st)
              | None \<Rightarrow>
                  (if strIncludes t '' '' then
                     (let ws = filter (\<lambda>w. length w > 1) (splitWs False [] t) in
                      if length ws > 2 then
                        (let flexiblePattern = joinWith ''.*'' (map escapeRegExp ws) in
                         if regexFound (rawText invoice) flexiblePattern then
                           addPattern now (vendor invoice)
                             \<lparr> p_field = c_field c, regexPattern = flexiblePattern,
                               p_confidence = 0.5, p_usageCount = 1, lastUsed = now \<rparr> st
                         else st)
                      else st)
                   else st))
           else st)
      | _ \<Rightarrow> st)"

text \<open>The leftmost match of \<^verbatim>\<open>/lineItems\[(\d+)\]\.sku/\<close> in the field path, and
  \<^verbatim>\<open>parseInt\<close> of its group.\<close>

fun skuIndex :: "string \<Rightarrow> nat option" where
  "skuIndex [] = None"
| "skuIndex (x # xs) =
     (let s = x # xs; rest = drop 10 s; ds = takeWhile isDigit rest in
      if startsWith s ''lineItems['' \<and> ds \<noteq> [] \<and> startsWith (dropWhile isDigit rest) ''].sku''
      then Some (digitsVal ds) else skuIndex xs)"

text \<open>Part 2 of the loop body: static mapping learning.\<close>

definition learnStatic :: "Invoice \<Rightarrow> Correction \<Rightarrow> MemoryStore \<Rightarrow> MemoryStore" where
  "learnStatic invoice c st =
     (if strIncludes (c_field c) ''sku'' \<and> truthy (c_to c) then
        (case skuIndex (c_field c) of
           Some idx \<Rightarrow>
             (let its = lineItems (inv_fields invoice);
                  desc = (if idx < length its then description (its ! idx) else None)
              in case desc of
                   Some d \<Rightarrow>
                     (if d \<noteq> [] then
                        addStaticCorrection (vendor invoice)
                          \<lparr> r_field = ''lineItems.sku'', triggerValue = JStr d,
                            correctedValue = c_to c, condition = None,
                            r_confidence = 0.8, r_usageCount = 1 \<rparr> st
                      else st)
                 | None \<Rightarrow> st)
         | None \<Rightarrow> st)
      else st)"

text \<open>Part 3 of the loop body (currency) has an empty body.\<close>

definition learnCorrection :: "string \<Rightarrow> Invoice \<Rightarrow> MemoryStore \<Rightarrow> Correction \<Rightarrow> MemoryStore" where
  "learnCorrection now invoice st c = learnStatic invoice c (learnPattern now invoice c st)"

definition learn :: "string \<Rightarrow> Invoice \<Rightarrow> HumanCorrectionLog \<Rightarrow> MemoryStore \<Rightarrow> MemoryStore" where
  "learn now invoice humanLog st =
     (if finalDecision humanLog = Rejected then st
      else foldl (learnCorrection now invoice) st (corrections humanLog))"

subsection \<open>Example data\<close>

definition emptyStore :: MemoryStore where
  "emptyStore = \<lparr> pattern_rows = [], static_rows = [] \<rparr>"

definition fieldsOf :: "(string \<times> jsval) list \<Rightarrow> LineItem list \<Rightarrow> InvoiceFields" where
  "fieldsOf kv its =
     \<lparr> props = (\<lambda>k. case map_of kv k of Some v \<Rightarrow> v | None \<Rightarrow> JUndefined), lineItems = its \<rparr>"

definition noReference :: ReferenceData where
  "noReference = \<lparr> purchaseOrders = [] \<rparr>"

text \<open>Two invoices of one vendor that carry the same invoice number.\<close>

definition invFirst :: Invoice where
  "invFirst =
     \<lparr> invoiceId = ''INV-A-003'', vendor = ''Supplier GmbH'',
       inv_fields = fieldsOf
         [(''invoiceNumber'', JStr ''RE-2024-003''), (''invoiceDate'', JStr ''20.01.2024''),
          (''serviceDate'', JStr ''15.01.2024''), (''currency'', JStr ''EUR''),
          (''netTotal'', JNum (Num 100)), (''taxRate'', JNum (Num 0.19)),
          (''taxTotal'', JNum (Num 19)), (''grossTotal'', JNum (Num 119))] [],
       confidence = 0.9,
       rawText = ''Rechnung RE-2024-003 Leistungsdatum: 05.01.2024'' \<rparr>"

definition invResubmitted :: Invoice where
  "invResubmitted = invFirst\<lparr> invoiceId := ''INV-A-004'' \<rparr>"

text \<open>An invoice without a currency and with a low extraction confidence.\<close>

definition invNoCurrency :: Invoice where
  "invNoCurrency =
     \<lparr> invoiceId = ''INV-B-003'', vendor = ''Parts AG'',
       inv_fields = fieldsOf
         [(''invoiceNumber'', JStr ''PA-7810''), (''invoiceDate'', JStr ''2024-02-01''),
          (''serviceDate'', JNull), (''currency'', JNull),
          (''netTotal'', JNum (Num 100)), (''taxRate'', JNum (Num 0.19)),
          (''taxTotal'', JNum (Num 19)), (''grossTotal'', JNum (Num 119))] [],
       confidence = 0.78,
       rawText = ''Invoice PA-7810'' \<rparr>"

definition serviceDatePattern :: ExtractionPattern where
  "serviceDatePattern =
     \<lparr> p_field = ''serviceDate'',
       regexPattern = ''Leistungsdatum:?'' @ [backslash] @ ''s*'' @ dottedDatePattern,
       p_confidence = 0.6, p_usageCount = 1, lastUsed = ''2024-01-10T08:00:00.000Z'' \<rparr>"

















text \<open>The entry that each part of the loop body of \<^verbatim>\<open>learn\<close> hands to the store, if any.\<close>

definition patternShape :: "Invoice \<Rightarrow> Correction \<Rightarrow> (string \<times> rat) option" where
  "patternShape invoice c =
     (case c_to c of
        JStr t \<Rightarrow>
          (if length t \<ge> (if c_field c = ''currency'' then 3 else 4) then
             (case firstFound (rawText invoice) (searchValues t) of
                Some (val, index) \<Rightarrow>
                  (case labelMatch (cleanContext (rawText invoice) index) of
                     Some label \<Rightarrow> Some (labelledRegex label val, 0.6)
                   | None \<Rightarrow> None)
              | None \<Rightarrow>
                  (if strIncludes t '' '' \<and> length (filter (\<lambda>w. length w > 1) (splitWs False [] t)) > 2
                      \<and> regexFound (rawText invoice)
                           (joinWith ''.*'' (map escapeRegExp (filter (\<lambda>w. length w > 1) (splitWs False [] t))))
                   then Some (joinWith ''.*'' (map escapeRegExp (filter (\<lambda>w. length w > 1) (splitWs False [] t))), 0.5)
                   else None))
           else None)
      | _ \<Rightarrow> None)"

definition patternToLearn :: "string \<Rightarrow> Invoice \<Rightarrow> Correction \<Rightarrow> ExtractionPattern option" where
  "patternToLearn now invoice c =
     map_option (\<lambda>(rx, cf). \<lparr> p_field = c_field c, regexPattern = rx, p_confidence = cf,
                               p_usageCount = 1, lastUsed = now \<rparr>) (patternShape invoice c)"

definition staticToLearn :: "Invoice \<Rightarrow> Correction \<Rightarrow> ValueCorrection option" where
  "staticToLearn invoice c =
     (if strIncludes (c_field c) ''sku'' \<and> truthy (c_to c) then
        (case skuIndex (c_field c) of
           Some idx \<Rightarrow>
             (if idx < length (lineItems (inv_fields invoice)) then
                (case description (lineItems (inv_fields invoice) ! idx) of
                   Some d \<Rightarrow>
                     (if d \<noteq> [] then
                        Some \<lparr> r_field = ''lineItems.sku'', triggerValue = JStr d,
                               correctedValue = c_to c, condition = None,
                               r_confidence = 0.8, r_usageCount = 1 \<rparr>
                      else None)
                 | None \<Rightarrow> None)
              else None)
         | None \<Rightarrow> None)
      else None)"

text \<open>The key of a static correction as it is stored.\<close>

definition storedStaticKey :: "string \<Rightarrow> ValueCorrection \<Rightarrow> (string \<times> ValueCorrection) \<Rightarrow> bool" where
  "storedStaticKey v c row =
     (fst row = v \<and> r_field (snd row) = r_field c
      \<and> triggerValue (snd row) = triggerOrNull (triggerValue c)
      \<and> correctedValue (snd row) = sqlBind (correctedValue c))"

text \<open>The keys that \<^verbatim>\<open>learn\<close> derives from a correction are present in the store.\<close>

definition patternCovered :: "Invoice \<Rightarrow> MemoryStore \<Rightarrow> Correction \<Rightarrow> bool" where
  "patternCovered invoice st c =
     (case patternToLearn [] invoice c of
        Some p \<Rightarrow> list_ex (patternKey (vendor invoice) p) (pattern_rows st) | None \<Rightarrow> True)"

definition staticCovered :: "Invoice \<Rightarrow> MemoryStore \<Rightarrow> Correction \<Rightarrow> bool" where
  "staticCovered invoice st c =
     (case staticToLearn invoice c of
        Some r \<Rightarrow> list_ex (staticKey (vendor invoice) r) (static_rows st) | None \<Rightarrow> True)"

definition covered :: "Invoice \<Rightarrow> MemoryStore \<Rightarrow> Correction \<Rightarrow> bool" where
  "covered invoice st c = (patternCovered invoice st c \<and> staticCovered invoice st c)"

text \<open>Entries of the store examples: a pattern handed over with a confidence above 1
  and a static correction whose corrected value is null.\<close>

definition highPattern :: ExtractionPattern where
  "highPattern =
     \<lparr> p_field = ''currency'', regexPattern = ''Currency:?'' @ [backslash] @ ''s*(EUR)'',
       p_confidence = 1.5, p_usageCount = 1, lastUsed = ''2024-01-10T08:00:00.000Z'' \<rparr>"

definition nullRule :: ValueCorrection where
  "nullRule =
     \<lparr> r_field = ''discountTerms'', triggerValue = JUndefined, correctedValue = JNull,
       condition = Some ''always'', r_confidence = 0.8, r_usageCount = 1 \<rparr>"

text \<open>The invoice and the log of the SKU example.\<close>

definition invSeefracht :: Invoice where
  "invSeefracht =
     \<lparr> invoiceId = ''INV-C-001'', vendor = ''Freight & Co'',
       inv_fields = fieldsOf
         [(''invoiceNumber'', JStr ''FC-1001''), (''invoiceDate'', JStr ''01.03.2024''),
          (''serviceDate'', JNull), (''currency'', JStr ''EUR''), (''poNumber'', JStr ''PO-C-900''),
          (''netTotal'', JNum (Num 1000)), (''taxRate'', JNum (Num 0.19)),
          (''taxTotal'', JNum (Num 190)), (''grossTotal'', JNum (Num 1190))]
         [\<lparr> sku = JNull, description = Some ''Seefracht'', qty = 1, unitPrice = 1000 \<rparr>],
       confidence = 0.8,
       rawText = ''Rechnung FC-1001 Position 1 Seefracht 1000,00'' \<rparr>"

definition logSeefracht :: HumanCorrectionLog where
  "logSeefracht =
     \<lparr> log_invoiceId = ''INV-C-001'', log_vendor = ''Freight & Co'',
       corrections = [\<lparr> c_field = ''lineItems[0].sku'', c_from = JNull, c_to = JStr ''FREIGHT'',
                        c_reason = Human ''SKU assigned'' \<rparr>],
       finalDecision = Approved \<rparr>"

text \<open>A later invoice of the vendor of the SKU example, with a line item that has no
  SKU, and an earlier invoice with the same invoice number.\<close>

definition invHamburg :: Invoice where
  "invHamburg =
     \<lparr> invoiceId = ''INV-C-003'', vendor = ''Freight & Co'',
       inv_fields = fieldsOf
         [(''invoiceNumber'', JStr ''FC-1003''), (''invoiceDate'', JStr ''20.03.2024''),
          (''serviceDate'', JStr ''18.03.2024''), (''currency'', JStr ''EUR''),
          (''poNumber'', JStr ''PO-C-900''),
          (''netTotal'', JNum (Num 1000)), (''taxRate'', JNum (Num 0.19)),
          (''taxTotal'', JNum (Num 190)), (''grossTotal'', JNum (Num 1190))]
         [\<lparr> sku = JNull, description = Some ''Seefracht Hamburg'', qty = 2, unitPrice = 500 \<rparr>],
       confidence = 0.85,
       rawText = ''Rechnung FC-1003 Position 1 Seefracht Hamburg 1000,00'' \<rparr>"

definition invHamburgEarlier :: Invoice where
  "invHamburgEarlier = invHamburg\<lparr> invoiceId := ''INV-C-000'' \<rparr>"

definition freightRule :: ValueCorrection where
  "freightRule =
     \<lparr> r_field = ''lineItems.sku'', triggerValue = JStr ''Seefracht'',
       correctedValue = JStr ''FREIGHT'', condition = None,
       r_confidence = 0.8, r_usageCount = 1 \<rparr>"

definition learnedSeefracht :: MemoryStore where
  "learnedSeefracht = learn ''2024-03-02T09:00:00.000Z'' invSeefracht logSeefracht emptyStore"







section \<open>Properties\<close>

subsection \<open>Auxiliary facts\<close>

lemma length_updateFirst [simp]: "length (updateFirst P f xs) = length xs"
  by (induction xs) auto

lemma updateFirst_nth:
  "list_ex P xs \<Longrightarrow>
   \<exists>i<length xs. P (xs ! i) \<and> (\<forall>j<i. \<not> P (xs ! j)) \<and> updateFirst P f xs = xs[i := f (xs ! i)]"
proof (induction xs)
  case Nil
  then show ?case by simp
next
  case (Cons x xs)
  show ?case
  proof (cases "P x")
    case True
    then have "P ((x # xs) ! 0) \<and> (\<forall>j<0. \<not> P ((x # xs) ! j))
        \<and> updateFirst P f (x # xs) = (x # xs)[0 := f ((x # xs) ! 0)]"
      by simp
    then show ?thesis by blast
  next
    case False
    with Cons.prems have "list_ex P xs" by simp
    from Cons.IH [OF this] obtain i where i: "i < length xs" "P (xs ! i)"
      "\<forall>j<i. \<not> P (xs ! j)" "updateFirst P f xs = xs[i := f (xs ! i)]"
      by blast
    have "\<forall>j<Suc i. \<not> P ((x # xs) ! j)"
    proof (intro allI impI)
      fix j assume "j < Suc i"
      then show "\<not> P ((x # xs) ! j)" using False i(3) by (cases j) auto
    qed
    with i False have "Suc i < length (x # xs) \<and> P ((x # xs) ! Suc i)
        \<and> (\<forall>j<Suc i. \<not> P ((x # xs) ! j))
        \<and> updateFirst P f (x # xs) = (x # xs)[Suc i := f ((x # xs) ! Suc i)]"
      by simp
    then show ?thesis by blast
  qed
qed

lemma process_not_duplicate:
  "\<forall>past\<in>set pastInvoices. \<not> isDuplicateOf invoice past \<Longrightarrow>
   process invoice referenceData pastInvoices store =
     scoring (confidence invoice)
       (taxValidation (rawText invoice)
         (poMatching (vendor invoice) referenceData (afterMemory invoice store)))"
  by (simp add: process_def find_None_iff [THEN iffD2])

lemma process_duplicate:
  "past \<in> set pastInvoices \<Longrightarrow> isDuplicateOf invoice past \<Longrightarrow>
   \<exists>d. process invoice referenceData pastInvoices store = duplicateResult invoice d"
proof -
  assume "past \<in> set pastInvoices" "isDuplicateOf invoice past"
  then have "find (isDuplicateOf invoice) pastInvoices \<noteq> None"
    by (auto simp: find_None_iff)
  then obtain d where "find (isDuplicateOf invoice) pastInvoices = Some d" by blast
  then have "process invoice referenceData pastInvoices store = duplicateResult invoice d"
    by (simp add: process_def)
  then show ?thesis by blast
qed

subsection \<open>The duplicate check\<close>

text \<open>
  Claim C2. When the list of past invoices holds an invoice of the same vendor with the
  same invoice number (\<^verbatim>\<open>===\<close>) and another invoice id, \<^verbatim>\<open>process\<close> requires human
  review, returns the confidence 0, proposes exactly one Correction, the duplicate flag
  on the invoice number, and returns the deep copy of the fields as it is: whatever
  the memory store and the reference data hold, no later step has run.
\<close>

theorem C2_duplicate_short_circuit:
  assumes "past \<in> set pastInvoices"
    and "vendor past = vendor invoice"
    and "strictEq (props (inv_fields past) ''invoiceNumber'') (props (inv_fields invoice) ''invoiceNumber'')"
    and "invoiceId past \<noteq> invoiceId invoice"
  shows "requiresHumanReview (process invoice referenceData pastInvoices store) = True
    \<and> confidenceScore (process invoice referenceData pastInvoices store) = 0
    \<and> proposedCorrections (process invoice referenceData pastInvoices store) =
        [\<lparr> c_field = ''invoiceNumber'', c_from = props (inv_fields invoice) ''invoiceNumber'',
           c_to = JStr ''DUPLICATE-FLAG'', c_reason = DuplicateSubmission \<rparr>]
    \<and> normalizedInvoice (process invoice referenceData pastInvoices store) = jsonCopy (inv_fields invoice)"
proof -
  from assms have "isDuplicateOf invoice past" by (simp add: isDuplicateOf_def)
  from process_duplicate [OF assms(1) this] obtain d where
    "process invoice referenceData pastInvoices store = duplicateResult invoice d" by blast
  then show ?thesis by (simp add: duplicateResult_def)
qed

theorem C2_duplicate_short_circuit_witness:
  "requiresHumanReview (process invResubmitted noReference [invFirst] emptyStore) = True
    \<and> confidenceScore (process invResubmitted noReference [invFirst] emptyStore) = 0
    \<and> proposedCorrections (process invResubmitted noReference [invFirst] emptyStore) =
        [\<lparr> c_field = ''invoiceNumber'', c_from = JStr ''RE-2024-003'',
           c_to = JStr ''DUPLICATE-FLAG'', c_reason = DuplicateSubmission \<rparr>]
    \<and> normalizedInvoice (process invResubmitted noReference [invFirst] emptyStore)
        = jsonCopy (inv_fields invResubmitted)"
  using C2_duplicate_short_circuit [of invFirst "[invFirst]" invResubmitted noReference emptyStore]
  by (simp add: invResubmitted_def invFirst_def fieldsOf_def)

subsection \<open>Memory updates\<close>

text \<open>
  Claim C9. On every input and on both paths, duplicate and normal, \<^verbatim>\<open>process\<close>
  returns the empty list of memory updates.
\<close>

theorem C9_memoryUpdates_empty:
  "memoryUpdates (process invoice referenceData pastInvoices store) = []"
  by (simp add: process_def duplicateResult_def scoring_def Let_def split: option.split)

theorem C9_memoryUpdates_empty_witness:
  "memoryUpdates (process invResubmitted noReference [invFirst] emptyStore) = []
   \<and> memoryUpdates (process invNoCurrency noReference [] emptyStore) = []"
  using C9_memoryUpdates_empty [of invResubmitted noReference "[invFirst]" emptyStore]
    C9_memoryUpdates_empty [of invNoCurrency noReference "[]" emptyStore]
  by simp

subsection \<open>Scoring and decision\<close>




subsection \<open>Pattern application\<close>








subsection \<open>Tax validation\<close>









lemma scoring_fields:
  "normalizedInvoice (scoring u w) = normalized w"
  "proposedCorrections (scoring u w) = proposed w"
  "confidenceScore (scoring u w) = score u (proposed w)"
  "requiresHumanReview (scoring u w) = (review w \<or> criticalMissing (normalized w) \<or> score u (proposed w) < 0.8)"
  by (simp_all add: scoring_def Let_def)









subsection \<open>Purchase-order matching\<close>












lemma taxValidation_proposed:
  "\<exists>cs. proposed (taxValidation raw w) = proposed w @ cs
     \<and> (\<forall>c\<in>set cs. c_field c = ''netTotal'' \<or> c_field c = ''taxTotal'')"
  by (simp add: taxValidation_def vatCheck_def sumCheck_def)












subsection \<open>The memory stores and repeated learning\<close>

lemma learnPattern_eq:
  "learnPattern now invoice c st =
     (case patternToLearn now invoice c of
        Some p \<Rightarrow> addPattern now (vendor invoice) p st | None \<Rightarrow> st)"
proof (cases "c_to c")
  case (JStr t)
  show ?thesis
  proof (cases "length t \<ge> (if c_field c = ''currency'' then 3 else 4)")
    case long: True
    show ?thesis
    proof (cases "firstFound (rawText invoice) (searchValues t)")
      case None
      then show ?thesis
        using JStr long
        by (simp add: learnPattern_def patternToLearn_def patternShape_def Let_def)
    next
      case (Some vi)
      obtain val index where vi: "vi = (val, index)" by (cases vi)
      show ?thesis
      proof (cases "labelMatch (cleanContext (rawText invoice) index)")
        case None
        then show ?thesis
          using JStr long Some vi
          by (simp add: learnPattern_def patternToLearn_def patternShape_def Let_def)
      next
        case (Some label)
        then show ?thesis
          using JStr long \<open>firstFound (rawText invoice) (searchValues t) = Some vi\<close> vi
          by (simp add: learnPattern_def patternToLearn_def patternShape_def Let_def)
      qed
    qed
  next
    case False
    then show ?thesis
      using JStr by (simp add: learnPattern_def patternToLearn_def patternShape_def Let_def)
  qed
qed (simp_all add: learnPattern_def patternToLearn_def patternShape_def)

lemma learnStatic_eq:
  "learnStatic invoice c st =
     (case staticToLearn invoice c of
        Some r \<Rightarrow> addStaticCorrection (vendor invoice) r st | None \<Rightarrow> st)"
  by (simp add: learnStatic_def staticToLearn_def Let_def split: option.split)

lemma staticKey_stored:
  "staticKey v c row = (storedStaticKey v c row \<and> sqlBind (correctedValue c) \<noteq> JNull)"
  by (auto simp: staticKey_def storedStaticKey_def sqlEq_def)

lemma updateFirst_pointwise:
  "(\<And>x. x \<in> set xs \<Longrightarrow> R x (f x)) \<Longrightarrow> (\<And>x. R x x) \<Longrightarrow> i < length xs \<Longrightarrow>
   R (xs ! i) (updateFirst P f xs ! i)"
proof (induction xs arbitrary: i)
  case Nil
  then show ?case by simp
next
  case (Cons x xs)
  then show ?case by (cases i) auto
qed

lemma updateFirst_all:
  "(\<And>x. x \<in> set xs \<Longrightarrow> Q x \<Longrightarrow> Q (f x)) \<Longrightarrow> \<forall>x\<in>set xs. Q x \<Longrightarrow> \<forall>x\<in>set (updateFirst P f xs). Q x"
  by (induction xs) auto

lemma updateFirst_list_ex:
  "(\<And>x. Q (f x) = Q x) \<Longrightarrow> list_ex Q (updateFirst P f xs) = list_ex Q xs"
  by (induction xs) auto

text \<open>The SQLite store: patterns.\<close>

lemma patternKey_reinforce [simp]: "patternKey v p (reinforcePattern now row) = patternKey v p row"
  by (simp add: patternKey_def reinforcePattern_def)

lemma list_ex_patternKey_update [simp]:
  "list_ex (patternKey v' p') (updateFirst P (reinforcePattern now) xs) = list_ex (patternKey v' p') xs"
  by (rule updateFirst_list_ex) simp

lemma addPattern_hit:
  assumes "list_ex (patternKey v p) (pattern_rows st)"
  shows "\<exists>i<length (pattern_rows st). patternKey v p (pattern_rows st ! i)
      \<and> (\<forall>j<i. \<not> patternKey v p (pattern_rows st ! j))
      \<and> pattern_rows (addPattern now v p st) = (pattern_rows st)
           [i := (fst (pattern_rows st ! i),
                  (snd (pattern_rows st ! i))
                    \<lparr> p_usageCount := p_usageCount (snd (pattern_rows st ! i)) + 1, lastUsed := now,
                      p_confidence := min 1 (p_confidence (snd (pattern_rows st ! i)) + 0.05) \<rparr>)]"
  using updateFirst_nth [OF assms, of "reinforcePattern now"] assms
  by (simp add: addPattern_def reinforcePattern_def)

lemma addPattern_miss:
  "\<not> list_ex (patternKey v p) (pattern_rows st) \<Longrightarrow>
   pattern_rows (addPattern now v p st) = pattern_rows st @ [(v, p)]"
  by (simp add: addPattern_def)

lemma addPattern_static_rows [simp]: "static_rows (addPattern now v p st) = static_rows st"
  by (simp add: addPattern_def)

lemma addPattern_length:
  "length (pattern_rows (addPattern now v p st)) =
     (if list_ex (patternKey v p) (pattern_rows st) then length (pattern_rows st)
      else Suc (length (pattern_rows st)))"
  by (simp add: addPattern_def)

lemma addPattern_key_present: "list_ex (patternKey v p) (pattern_rows (addPattern now v p st))"
  by (simp add: addPattern_def) (simp add: patternKey_def)

lemma addPattern_key_kept:
  "list_ex (patternKey v' p') (pattern_rows st) \<Longrightarrow>
   list_ex (patternKey v' p') (pattern_rows (addPattern now v p st))"
  by (simp add: addPattern_def)

lemma addPattern_bounded:
  assumes "\<forall>row\<in>set (pattern_rows st). p_confidence (snd row) \<le> 1" "p_confidence p \<le> 1"
  shows "\<forall>row\<in>set (pattern_rows (addPattern now v p st)). p_confidence (snd row) \<le> 1"
proof (cases "list_ex (patternKey v p) (pattern_rows st)")
  case True
  then show ?thesis
    using assms(1) updateFirst_all [of "pattern_rows st" "\<lambda>row. p_confidence (snd row) \<le> 1"
        "reinforcePattern now" "patternKey v p"]
    by (simp add: addPattern_def reinforcePattern_def)
next
  case False
  then show ?thesis using assms by (simp add: addPattern_def)
qed

lemma addPattern_monotone:
  assumes "\<forall>row\<in>set (pattern_rows st). p_confidence (snd row) \<le> 1" "i < length (pattern_rows st)"
  shows "p_confidence (snd (pattern_rows st ! i)) \<le> p_confidence (snd (pattern_rows (addPattern now v p st) ! i))"
proof (cases "list_ex (patternKey v p) (pattern_rows st)")
  case True
  have "p_confidence (snd (pattern_rows st ! i))
      \<le> p_confidence (snd (updateFirst (patternKey v p) (reinforcePattern now) (pattern_rows st) ! i))"
    using assms
    by (intro updateFirst_pointwise [where R = "\<lambda>a b. p_confidence (snd a) \<le> p_confidence (snd b)"])
       (auto simp: reinforcePattern_def)
  with True show ?thesis by (simp add: addPattern_def)
next
  case False
  then show ?thesis using assms(2) by (simp add: addPattern_def nth_append)
qed

text \<open>The SQLite store: static corrections.\<close>

lemma staticKey_reinforce [simp]: "staticKey v c (reinforceStatic row) = staticKey v c row"
  by (simp add: staticKey_def reinforceStatic_def)

lemma list_ex_staticKey_update [simp]:
  "list_ex (staticKey v' c') (updateFirst P reinforceStatic xs) = list_ex (staticKey v' c') xs"
  by (rule updateFirst_list_ex) simp

lemma addStatic_hit:
  assumes "list_ex (staticKey v c) (static_rows st)"
  shows "\<exists>i<length (static_rows st). staticKey v c (static_rows st ! i)
      \<and> (\<forall>j<i. \<not> staticKey v c (static_rows st ! j))
      \<and> static_rows (addStaticCorrection v c st) = (static_rows st)
           [i := (fst (static_rows st ! i),
                  (snd (static_rows st ! i))
                    \<lparr> r_usageCount := r_usageCount (snd (static_rows st ! i)) + 1,
                      r_confidence := min 1 (r_confidence (snd (static_rows st ! i)) + 0.05) \<rparr>)]"
  using updateFirst_nth [OF assms, of reinforceStatic] assms
  by (simp add: addStaticCorrection_def reinforceStatic_def)

lemma addStatic_pattern_rows [simp]: "pattern_rows (addStaticCorrection v c st) = pattern_rows st"
  by (simp add: addStaticCorrection_def)

lemma addStatic_length:
  "length (static_rows (addStaticCorrection v c st)) =
     (if list_ex (staticKey v c) (static_rows st) then length (static_rows st)
      else Suc (length (static_rows st)))"
  by (simp add: addStaticCorrection_def)

lemma sqlBind_idem [simp]: "sqlBind (sqlBind x) = sqlBind x"
  by (cases x rule: sqlBind.cases) simp_all

lemma triggerOrNull_idem [simp]: "triggerOrNull (triggerOrNull t) = triggerOrNull t"
  by (simp add: triggerOrNull_def)

lemma addStatic_key_present:
  "sqlBind (correctedValue c) \<noteq> JNull \<Longrightarrow>
   list_ex (staticKey v c) (static_rows (addStaticCorrection v c st))"
  by (simp add: addStaticCorrection_def) (simp add: staticKey_def sqlEq_def)

lemma addStatic_key_kept:
  "list_ex (staticKey v' c') (static_rows st) \<Longrightarrow>
   list_ex (staticKey v' c') (static_rows (addStaticCorrection v c st))"
  by (simp add: addStaticCorrection_def)

lemma addStatic_bounded:
  assumes "\<forall>row\<in>set (static_rows st). r_confidence (snd row) \<le> 1" "r_confidence c \<le> 1"
  shows "\<forall>row\<in>set (static_rows (addStaticCorrection v c st)). r_confidence (snd row) \<le> 1"
proof (cases "list_ex (staticKey v c) (static_rows st)")
  case True
  then show ?thesis
    using assms(1) updateFirst_all [of "static_rows st" "\<lambda>row. r_confidence (snd row) \<le> 1"
        reinforceStatic "staticKey v c"]
    by (simp add: addStaticCorrection_def reinforceStatic_def)
next
  case False
  then show ?thesis using assms by (simp add: addStaticCorrection_def)
qed

lemma addStatic_monotone:
  assumes "\<forall>row\<in>set (static_rows st). r_confidence (snd row) \<le> 1" "i < length (static_rows st)"
  shows "r_confidence (snd (static_rows st ! i))
      \<le> r_confidence (snd (static_rows (addStaticCorrection v c st) ! i))"
proof (cases "list_ex (staticKey v c) (static_rows st)")
  case True
  have "r_confidence (snd (static_rows st ! i))
      \<le> r_confidence (snd (updateFirst (staticKey v c) reinforceStatic (static_rows st) ! i))"
    using assms
    by (intro updateFirst_pointwise [where R = "\<lambda>a b. r_confidence (snd a) \<le> r_confidence (snd b)"])
       (auto simp: reinforceStatic_def)
  with True show ?thesis by (simp add: addStaticCorrection_def)
next
  case False
  then show ?thesis using assms(2) by (simp add: addStaticCorrection_def nth_append)
qed

text \<open>The JSON-file store.\<close>

lemma addPattern_file_hit:
  assumes "list_ex (samePattern p) (patterns (getVendorMemory_file d v))"
  shows "\<exists>i<length (patterns (getVendorMemory_file d v)).
        samePattern p (patterns (getVendorMemory_file d v) ! i)
      \<and> (\<forall>j<i. \<not> samePattern p (patterns (getVendorMemory_file d v) ! j))
      \<and> patterns (getVendorMemory_file (addPattern_file now v p d) v) =
          (patterns (getVendorMemory_file d v))
            [i := (patterns (getVendorMemory_file d v) ! i)
               \<lparr> p_usageCount := p_usageCount (patterns (getVendorMemory_file d v) ! i) + 1,
                 lastUsed := now,
                 p_confidence := min 1 (p_confidence (patterns (getVendorMemory_file d v) ! i) + 0.05) \<rparr>]"
  using updateFirst_nth [OF assms, of "reinforcePattern_file now"] assms
  by (simp add: addPattern_file_def Let_def getVendorMemory_file_def updateVendorMemory_file_def
      reinforcePattern_file_def)

lemma addStatic_file_hit:
  assumes "list_ex (sameStatic c) (staticCorrections (getVendorMemory_file d v))"
  shows "\<exists>i<length (staticCorrections (getVendorMemory_file d v)).
        sameStatic c (staticCorrections (getVendorMemory_file d v) ! i)
      \<and> (\<forall>j<i. \<not> sameStatic c (staticCorrections (getVendorMemory_file d v) ! j))
      \<and> staticCorrections (getVendorMemory_file (addStaticCorrection_file v c d) v) =
          (staticCorrections (getVendorMemory_file d v))
            [i := (staticCorrections (getVendorMemory_file d v) ! i)
               \<lparr> r_usageCount := r_usageCount (staticCorrections (getVendorMemory_file d v) ! i) + 1,
                 r_confidence := min 1 (r_confidence (staticCorrections (getVendorMemory_file d v) ! i) + 0.05) \<rparr>]"
  using updateFirst_nth [OF assms, of reinforceStatic_file] assms
  by (simp add: addStaticCorrection_file_def Let_def getVendorMemory_file_def updateVendorMemory_file_def
      reinforceStatic_file_def)

lemma addPattern_file_bounded:
  assumes "\<forall>q\<in>set (patterns (getVendorMemory_file d v)). p_confidence q \<le> 1" "p_confidence p \<le> 1"
  shows "\<forall>q\<in>set (patterns (getVendorMemory_file (addPattern_file now v p d) v)). p_confidence q \<le> 1"
  using assms updateFirst_all [of "patterns (getVendorMemory_file d v)" "\<lambda>q. p_confidence q \<le> 1"
      "reinforcePattern_file now" "samePattern p"]
  by (simp add: addPattern_file_def Let_def getVendorMemory_file_def updateVendorMemory_file_def
      reinforcePattern_file_def)

lemma addPattern_file_monotone:
  assumes "\<forall>q\<in>set (patterns (getVendorMemory_file d v)). p_confidence q \<le> 1"
    "i < length (patterns (getVendorMemory_file d v))"
  shows "p_confidence (patterns (getVendorMemory_file d v) ! i)
      \<le> p_confidence (patterns (getVendorMemory_file (addPattern_file now v p d) v) ! i)"
proof -
  let ?ps = "patterns (getVendorMemory_file d v)"
  have "p_confidence (?ps ! i)
      \<le> p_confidence (updateFirst (samePattern p) (reinforcePattern_file now) ?ps ! i)"
    using assms
    by (intro updateFirst_pointwise [where R = "\<lambda>a b. p_confidence a \<le> p_confidence b"])
       (auto simp: reinforcePattern_file_def)
  then show ?thesis
    using assms(2)
    by (simp add: addPattern_file_def Let_def getVendorMemory_file_def updateVendorMemory_file_def
        nth_append)
qed

lemma addStatic_file_bounded:
  assumes "\<forall>q\<in>set (staticCorrections (getVendorMemory_file d v)). r_confidence q \<le> 1" "r_confidence c \<le> 1"
  shows "\<forall>q\<in>set (staticCorrections (getVendorMemory_file (addStaticCorrection_file v c d) v)). r_confidence q \<le> 1"
  using assms updateFirst_all [of "staticCorrections (getVendorMemory_file d v)" "\<lambda>q. r_confidence q \<le> 1"
      reinforceStatic_file "sameStatic c"]
  by (simp add: addStaticCorrection_file_def Let_def getVendorMemory_file_def updateVendorMemory_file_def
      reinforceStatic_file_def)

lemma addStatic_file_monotone:
  assumes "\<forall>q\<in>set (staticCorrections (getVendorMemory_file d v)). r_confidence q \<le> 1"
    "i < length (staticCorrections (getVendorMemory_file d v))"
  shows "r_confidence (staticCorrections (getVendorMemory_file d v) ! i)
      \<le> r_confidence (staticCorrections (getVendorMemory_file (addStaticCorrection_file v c d) v) ! i)"
proof -
  let ?cs = "staticCorrections (getVendorMemory_file d v)"
  have "r_confidence (?cs ! i)
      \<le> r_confidence (updateFirst (sameStatic c) reinforceStatic_file ?cs ! i)"
    using assms
    by (intro updateFirst_pointwise [where R = "\<lambda>a b. r_confidence a \<le> r_confidence b"])
       (auto simp: reinforceStatic_file_def)
  then show ?thesis
    using assms(2)
    by (simp add: addStaticCorrection_file_def Let_def getVendorMemory_file_def updateVendorMemory_file_def
        nth_append)
qed

text \<open>Learning the same log again adds no row.\<close>

lemma patternToLearn_key:
  "patternToLearn now invoice c = Some p \<Longrightarrow>
   \<exists>q. patternToLearn [] invoice c = Some q \<and> patternKey v q = patternKey v p"
  by (cases "patternShape invoice c")
     (auto simp: patternToLearn_def patternKey_def fun_eq_iff)

lemma patternToLearn_none:
  "patternToLearn now invoice c = None \<Longrightarrow> patternToLearn [] invoice c = None"
  by (simp add: patternToLearn_def)

lemma staticToLearn_bound: "staticToLearn invoice c = Some r \<Longrightarrow> sqlBind (correctedValue r) \<noteq> JNull"
proof -
  assume a: "staticToLearn invoice c = Some r"
  then have t: "truthy (c_to c)" and e: "correctedValue r = c_to c"
    by (auto simp: staticToLearn_def split: if_splits option.splits)
  from t show ?thesis unfolding e by (cases "c_to c" rule: sqlBind.cases) simp_all
qed

lemma covered_parts: "covered invoice st c = (patternCovered invoice st c \<and> staticCovered invoice st c)"
  by (simp add: covered_def)

lemma learnPattern_static_rows [simp]:
  "static_rows (learnPattern now invoice c st) = static_rows st"
  by (simp add: learnPattern_eq split: option.split)

lemma learnStatic_pattern_rows [simp]:
  "pattern_rows (learnStatic invoice c st) = pattern_rows st"
  by (simp add: learnStatic_eq split: option.split)

lemma patternCovered_learnPattern_self: "patternCovered invoice (learnPattern now invoice c st) c"
proof (cases "patternToLearn now invoice c")
  case None
  then show ?thesis by (simp add: patternCovered_def patternToLearn_none)
next
  case (Some p)
  from patternToLearn_key [OF Some, of "vendor invoice"] obtain q where
    q: "patternToLearn [] invoice c = Some q" "patternKey (vendor invoice) q = patternKey (vendor invoice) p"
    by blast
  show ?thesis
    by (simp add: patternCovered_def q learnPattern_eq Some addPattern_key_present)
qed

lemma patternCovered_learnPattern_kept:
  "patternCovered invoice st c' \<Longrightarrow> patternCovered invoice (learnPattern now invoice c st) c'"
  by (cases "patternToLearn now invoice c"; cases "patternToLearn [] invoice c'")
     (simp_all add: patternCovered_def learnPattern_eq addPattern_key_kept)

lemma patternCovered_learnStatic [simp]:
  "patternCovered invoice (learnStatic invoice c st) c' = patternCovered invoice st c'"
  by (simp add: patternCovered_def split: option.split)

lemma staticCovered_learnPattern [simp]:
  "staticCovered invoice (learnPattern now invoice c st) c' = staticCovered invoice st c'"
  by (simp add: staticCovered_def split: option.split)

lemma staticCovered_learnStatic_self: "staticCovered invoice (learnStatic invoice c st) c"
proof (cases "staticToLearn invoice c")
  case None
  then show ?thesis by (simp add: staticCovered_def)
next
  case (Some r)
  then show ?thesis
    by (simp add: staticCovered_def learnStatic_eq addStatic_key_present staticToLearn_bound)
qed

lemma staticCovered_learnStatic_kept:
  "staticCovered invoice st c' \<Longrightarrow> staticCovered invoice (learnStatic invoice c st) c'"
  by (cases "staticToLearn invoice c"; cases "staticToLearn invoice c'")
     (simp_all add: staticCovered_def learnStatic_eq addStatic_key_kept)

lemma covered_self: "covered invoice (learnCorrection now invoice st c) c"
  by (simp add: covered_parts learnCorrection_def patternCovered_learnPattern_self
      staticCovered_learnStatic_self)

lemma covered_kept: "covered invoice st c' \<Longrightarrow> covered invoice (learnCorrection now invoice st c) c'"
  by (simp add: covered_parts learnCorrection_def patternCovered_learnPattern_kept
      staticCovered_learnStatic_kept)

lemma patternCovered_length:
  "patternCovered invoice st c \<Longrightarrow>
   length (pattern_rows (learnPattern now invoice c st)) = length (pattern_rows st)"
proof (cases "patternToLearn now invoice c")
  case None
  then show ?thesis by (simp add: learnPattern_eq)
next
  case (Some p)
  assume pc: "patternCovered invoice st c"
  from patternToLearn_key [OF Some, of "vendor invoice"] obtain q where
    q: "patternToLearn [] invoice c = Some q" "patternKey (vendor invoice) q = patternKey (vendor invoice) p"
    by blast
  from pc q have "list_ex (patternKey (vendor invoice) p) (pattern_rows st)"
    by (simp add: patternCovered_def)
  then show ?thesis by (simp add: learnPattern_eq Some addPattern_length)
qed

lemma staticCovered_length:
  "staticCovered invoice st c \<Longrightarrow>
   length (static_rows (learnStatic invoice c st)) = length (static_rows st)"
  by (cases "staticToLearn invoice c")
     (simp_all add: staticCovered_def learnStatic_eq addStatic_length)

lemma covered_lengths:
  "covered invoice st c \<Longrightarrow>
   length (pattern_rows (learnCorrection now invoice st c)) = length (pattern_rows st)
   \<and> length (static_rows (learnCorrection now invoice st c)) = length (static_rows st)"
  by (simp add: covered_parts learnCorrection_def patternCovered_length staticCovered_length)

lemma covered_foldl_kept:
  "covered invoice st c' \<Longrightarrow> covered invoice (foldl (learnCorrection now invoice) st cs) c'"
  by (induction cs arbitrary: st) (simp_all add: covered_kept)

lemma covered_foldl_all:
  "\<forall>c\<in>set cs. covered invoice (foldl (learnCorrection now invoice) st cs) c"
proof (induction cs arbitrary: st)
  case Nil
  then show ?case by simp
next
  case (Cons c cs)
  have "covered invoice (foldl (learnCorrection now invoice) (learnCorrection now invoice st c) cs) c"
    by (rule covered_foldl_kept) (rule covered_self)
  with Cons.IH [of "learnCorrection now invoice st c"] show ?case by simp
qed

lemma covered_foldl_lengths:
  "\<forall>c\<in>set cs. covered invoice st c \<Longrightarrow>
   length (pattern_rows (foldl (learnCorrection now invoice) st cs)) = length (pattern_rows st)
   \<and> length (static_rows (foldl (learnCorrection now invoice) st cs)) = length (static_rows st)"
proof (induction cs arbitrary: st)
  case Nil
  then show ?case by simp
next
  case (Cons c cs)
  have "\<forall>c'\<in>set cs. covered invoice (learnCorrection now invoice st c) c'"
    using Cons.prems by (simp add: covered_kept)
  from Cons.IH [OF this] covered_lengths [of invoice st c now] Cons.prems
  show ?case by simp
qed

lemma learn_twice_lengths:
  "length (pattern_rows (learn now' invoice humanLog (learn now invoice humanLog st)))
     = length (pattern_rows (learn now invoice humanLog st))
   \<and> length (static_rows (learn now' invoice humanLog (learn now invoice humanLog st)))
     = length (static_rows (learn now invoice humanLog st))"
proof (cases "finalDecision humanLog = Rejected")
  case True
  then show ?thesis by (simp add: learn_def)
next
  case False
  have "\<forall>c\<in>set (corrections humanLog).
      covered invoice (foldl (learnCorrection now invoice) st (corrections humanLog)) c"
    by (rule covered_foldl_all)
  from covered_foldl_lengths [OF this, of now']
  show ?thesis using False by (simp add: learn_def)
qed

lemma seefracht_twice:
  "static_rows (learn ''2024-03-03T09:00:00.000Z'' invSeefracht logSeefracht
      (learn ''2024-03-02T09:00:00.000Z'' invSeefracht logSeefracht emptyStore)) =
     [(''Freight & Co'',
       \<lparr> r_field = ''lineItems.sku'', triggerValue = JStr ''Seefracht'',
         correctedValue = JStr ''FREIGHT'', condition = None,
         r_confidence = 0.85, r_usageCount = 2 \<rparr>)]"
  by code_simp

text \<open>
  Claim C6, as amended. In both stores, adding a pattern whose key (vendor, field,
  regexPattern) is present changes exactly one row, the first with that key: its usage
  count grows by 1 and its confidence becomes \<open>min 1 (confidence + 0.05)\<close>; no row is
  added. The same holds for a static correction with the key (vendor, field,
  triggerValue, correctedValue); in the SQLite store the corrected value must not be
  null. When every stored confidence and the confidence handed over are at most 1,
  every stored confidence is at most 1 afterwards and the confidence of no row
  decreases. Learning the same log from the same invoice a second time leaves the
  number of rows of both tables as it is; in the SKU example it leaves one rule row
  with usage count 2 and confidence 0.85.
\<close>

theorem C6_upsert_and_confidence:
  "(list_ex (patternKey v p) (pattern_rows st) \<longrightarrow>
      (\<exists>i<length (pattern_rows st). patternKey v p (pattern_rows st ! i)
        \<and> pattern_rows (addPattern now v p st) = (pattern_rows st)
             [i := (fst (pattern_rows st ! i),
                    (snd (pattern_rows st ! i))
                      \<lparr> p_usageCount := p_usageCount (snd (pattern_rows st ! i)) + 1, lastUsed := now,
                        p_confidence := min 1 (p_confidence (snd (pattern_rows st ! i)) + 0.05) \<rparr>)]))
   \<and> (list_ex (storedStaticKey v c) (static_rows st) \<and> sqlBind (correctedValue c) \<noteq> JNull \<longrightarrow>
      (\<exists>i<length (static_rows st). storedStaticKey v c (static_rows st ! i)
        \<and> static_rows (addStaticCorrection v c st) = (static_rows st)
             [i := (fst (static_rows st ! i),
                    (snd (static_rows st ! i))
                      \<lparr> r_usageCount := r_usageCount (snd (static_rows st ! i)) + 1,
                        r_confidence := min 1 (r_confidence (snd (static_rows st ! i)) + 0.05) \<rparr>)]))
   \<and> (list_ex (samePattern p) (patterns (getVendorMemory_file d v)) \<longrightarrow>
      (\<exists>i<length (patterns (getVendorMemory_file d v)).
          samePattern p (patterns (getVendorMemory_file d v) ! i)
        \<and> patterns (getVendorMemory_file (addPattern_file now v p d) v) =
            (patterns (getVendorMemory_file d v))
              [i := (patterns (getVendorMemory_file d v) ! i)
                 \<lparr> p_usageCount := p_usageCount (patterns (getVendorMemory_file d v) ! i) + 1,
                   lastUsed := now,
                   p_confidence := min 1 (p_confidence (patterns (getVendorMemory_file d v) ! i) + 0.05) \<rparr>]))
   \<and> (list_ex (sameStatic c) (staticCorrections (getVendorMemory_file d v)) \<longrightarrow>
      (\<exists>i<length (staticCorrections (getVendorMemory_file d v)).
          sameStatic c (staticCorrections (getVendorMemory_file d v) ! i)
        \<and> staticCorrections (getVendorMemory_file (addStaticCorrection_file v c d) v) =
            (staticCorrections (getVendorMemory_file d v))
              [i := (staticCorrections (getVendorMemory_file d v) ! i)
                 \<lparr> r_usageCount := r_usageCount (staticCorrections (getVendorMemory_file d v) ! i) + 1,
                   r_confidence := min 1 (r_confidence (staticCorrections (getVendorMemory_file d v) ! i) + 0.05) \<rparr>]))
   \<and> ((\<forall>row\<in>set (pattern_rows st). p_confidence (snd row) \<le> 1) \<and> p_confidence p \<le> 1 \<longrightarrow>
        (\<forall>row\<in>set (pattern_rows (addPattern now v p st)). p_confidence (snd row) \<le> 1)
      \<and> (\<forall>i<length (pattern_rows st). p_confidence (snd (pattern_rows st ! i))
            \<le> p_confidence (snd (pattern_rows (addPattern now v p st) ! i))))
   \<and> ((\<forall>row\<in>set (static_rows st). r_confidence (snd row) \<le> 1) \<and> r_confidence c \<le> 1 \<longrightarrow>
        (\<forall>row\<in>set (static_rows (addStaticCorrection v c st)). r_confidence (snd row) \<le> 1)
      \<and> (\<forall>i<length (static_rows st). r_confidence (snd (static_rows st ! i))
            \<le> r_confidence (snd (static_rows (addStaticCorrection v c st) ! i))))
   \<and> ((\<forall>q\<in>set (patterns (getVendorMemory_file d v)). p_confidence q \<le> 1) \<and> p_confidence p \<le> 1 \<longrightarrow>
        (\<forall>q\<in>set (patterns (getVendorMemory_file (addPattern_file now v p d) v)). p_confidence q \<le> 1)
      \<and> (\<forall>i<length (patterns (getVendorMemory_file d v)). p_confidence (patterns (getVendorMemory_file d v) ! i)
            \<le> p_confidence (patterns (getVendorMemory_file (addPattern_file now v p d) v) ! i)))
   \<and> ((\<forall>q\<in>set (staticCorrections (getVendorMemory_file d v)). r_confidence q \<le> 1) \<and> r_confidence c \<le> 1 \<longrightarrow>
        (\<forall>q\<in>set (staticCorrections (getVendorMemory_file (addStaticCorrection_file v c d) v)). r_confidence q \<le> 1)
      \<and> (\<forall>i<length (staticCorrections (getVendorMemory_file d v)).
            r_confidence (staticCorrections (getVendorMemory_file d v) ! i)
            \<le> r_confidence (staticCorrections (getVendorMemory_file (addStaticCorrection_file v c d) v) ! i)))
   \<and> length (pattern_rows (learn now' invoice humanLog (learn now invoice humanLog st)))
       = length (pattern_rows (learn now invoice humanLog st))
   \<and> length (static_rows (learn now' invoice humanLog (learn now invoice humanLog st)))
       = length (static_rows (learn now invoice humanLog st))
   \<and> static_rows (learn ''2024-03-03T09:00:00.000Z'' invSeefracht logSeefracht
        (learn ''2024-03-02T09:00:00.000Z'' invSeefracht logSeefracht emptyStore)) =
       [(''Freight & Co'',
         \<lparr> r_field = ''lineItems.sku'', triggerValue = JStr ''Seefracht'',
           correctedValue = JStr ''FREIGHT'', condition = None,
           r_confidence = 0.85, r_usageCount = 2 \<rparr>)]"
proof -
  have a: "list_ex (patternKey v p) (pattern_rows st) \<longrightarrow>
      (\<exists>i<length (pattern_rows st). patternKey v p (pattern_rows st ! i)
        \<and> pattern_rows (addPattern now v p st) = (pattern_rows st)
             [i := (fst (pattern_rows st ! i),
                    (snd (pattern_rows st ! i))
                      \<lparr> p_usageCount := p_usageCount (snd (pattern_rows st ! i)) + 1, lastUsed := now,
                        p_confidence := min 1 (p_confidence (snd (pattern_rows st ! i)) + 0.05) \<rparr>)])"
    using addPattern_hit [of v p st now] by blast
  have b: "list_ex (storedStaticKey v c) (static_rows st) \<and> sqlBind (correctedValue c) \<noteq> JNull \<longrightarrow>
      (\<exists>i<length (static_rows st). storedStaticKey v c (static_rows st ! i)
        \<and> static_rows (addStaticCorrection v c st) = (static_rows st)
             [i := (fst (static_rows st ! i),
                    (snd (static_rows st ! i))
                      \<lparr> r_usageCount := r_usageCount (snd (static_rows st ! i)) + 1,
                        r_confidence := min 1 (r_confidence (snd (static_rows st ! i)) + 0.05) \<rparr>)])"
  proof
    assume h: "list_ex (storedStaticKey v c) (static_rows st) \<and> sqlBind (correctedValue c) \<noteq> JNull"
    then have "list_ex (staticKey v c) (static_rows st)"
      by (simp add: list_ex_iff staticKey_stored)
    from addStatic_hit [OF this] show "\<exists>i<length (static_rows st). storedStaticKey v c (static_rows st ! i)
        \<and> static_rows (addStaticCorrection v c st) = (static_rows st)
             [i := (fst (static_rows st ! i),
                    (snd (static_rows st ! i))
                      \<lparr> r_usageCount := r_usageCount (snd (static_rows st ! i)) + 1,
                        r_confidence := min 1 (r_confidence (snd (static_rows st ! i)) + 0.05) \<rparr>)]"
      by (auto simp: staticKey_stored)
  qed
  have c: "list_ex (samePattern p) (patterns (getVendorMemory_file d v)) \<longrightarrow>
      (\<exists>i<length (patterns (getVendorMemory_file d v)).
          samePattern p (patterns (getVendorMemory_file d v) ! i)
        \<and> patterns (getVendorMemory_file (addPattern_file now v p d) v) =
            (patterns (getVendorMemory_file d v))
              [i := (patterns (getVendorMemory_file d v) ! i)
                 \<lparr> p_usageCount := p_usageCount (patterns (getVendorMemory_file d v) ! i) + 1,
                   lastUsed := now,
                   p_confidence := min 1 (p_confidence (patterns (getVendorMemory_file d v) ! i) + 0.05) \<rparr>])"
    using addPattern_file_hit [of p d v now] by blast
  have d: "list_ex (sameStatic c) (staticCorrections (getVendorMemory_file d v)) \<longrightarrow>
      (\<exists>i<length (staticCorrections (getVendorMemory_file d v)).
          sameStatic c (staticCorrections (getVendorMemory_file d v) ! i)
        \<and> staticCorrections (getVendorMemory_file (addStaticCorrection_file v c d) v) =
            (staticCorrections (getVendorMemory_file d v))
              [i := (staticCorrections (getVendorMemory_file d v) ! i)
                 \<lparr> r_usageCount := r_usageCount (staticCorrections (getVendorMemory_file d v) ! i) + 1,
                   r_confidence := min 1 (r_confidence (staticCorrections (getVendorMemory_file d v) ! i) + 0.05) \<rparr>])"
    using addStatic_file_hit [of c d v] by blast
  have e: "(\<forall>row\<in>set (pattern_rows st). p_confidence (snd row) \<le> 1) \<and> p_confidence p \<le> 1 \<longrightarrow>
        (\<forall>row\<in>set (pattern_rows (addPattern now v p st)). p_confidence (snd row) \<le> 1)
      \<and> (\<forall>i<length (pattern_rows st). p_confidence (snd (pattern_rows st ! i))
            \<le> p_confidence (snd (pattern_rows (addPattern now v p st) ! i)))"
    using addPattern_bounded [of st p now v] addPattern_monotone [of st _ now v p] by blast
  have f: "(\<forall>row\<in>set (static_rows st). r_confidence (snd row) \<le> 1) \<and> r_confidence c \<le> 1 \<longrightarrow>
        (\<forall>row\<in>set (static_rows (addStaticCorrection v c st)). r_confidence (snd row) \<le> 1)
      \<and> (\<forall>i<length (static_rows st). r_confidence (snd (static_rows st ! i))
            \<le> r_confidence (snd (static_rows (addStaticCorrection v c st) ! i)))"
    using addStatic_bounded [of st c v] addStatic_monotone [of st _ v c] by blast
  have g: "(\<forall>q\<in>set (patterns (getVendorMemory_file d v)). p_confidence q \<le> 1) \<and> p_confidence p \<le> 1 \<longrightarrow>
        (\<forall>q\<in>set (patterns (getVendorMemory_file (addPattern_file now v p d) v)). p_confidence q \<le> 1)
      \<and> (\<forall>i<length (patterns (getVendorMemory_file d v)). p_confidence (patterns (getVendorMemory_file d v) ! i)
            \<le> p_confidence (patterns (getVendorMemory_file (addPattern_file now v p d) v) ! i))"
    using addPattern_file_bounded [of d v p now] addPattern_file_monotone [of d v _ now p] by blast
  have h: "(\<forall>q\<in>set (staticCorrections (getVendorMemory_file d v)). r_confidence q \<le> 1) \<and> r_confidence c \<le> 1 \<longrightarrow>
        (\<forall>q\<in>set (staticCorrections (getVendorMemory_file (addStaticCorrection_file v c d) v)). r_confidence q \<le> 1)
      \<and> (\<forall>i<length (staticCorrections (getVendorMemory_file d v)).
            r_confidence (staticCorrections (getVendorMemory_file d v) ! i)
            \<le> r_confidence (staticCorrections (getVendorMemory_file (addStaticCorrection_file v c d) v) ! i))"
    using addStatic_file_bounded [of d v c] addStatic_file_monotone [of d v _ c] by blast
  note l = learn_twice_lengths [of now' invoice humanLog now st]
  show ?thesis
    by (rule conjI [OF a conjI [OF b conjI [OF c conjI [OF d conjI [OF e conjI [OF f
        conjI [OF g conjI [OF h conjI [OF conjunct1 [OF l] conjI [OF conjunct2 [OF l]
        seefracht_twice]]]]]]]]]])
qed

lemma once_added:
  "pattern_rows (addPattern ''2024-01-10T08:00:00.000Z'' ''Supplier GmbH'' serviceDatePattern emptyStore)
     = [(''Supplier GmbH'', serviceDatePattern)]"
  by (simp add: addPattern_def emptyStore_def)

lemma serviceDatePattern_counters:
  "p_usageCount serviceDatePattern = 1" "p_confidence serviceDatePattern = 0.6"
  by (simp_all add: serviceDatePattern_def)

theorem C6_upsert_and_confidence_witness:
  "pattern_rows (addPattern ''2024-01-12T08:00:00.000Z'' ''Supplier GmbH'' serviceDatePattern
      (addPattern ''2024-01-10T08:00:00.000Z'' ''Supplier GmbH'' serviceDatePattern emptyStore)) =
     [(''Supplier GmbH'', serviceDatePattern\<lparr> p_usageCount := 2, lastUsed := ''2024-01-12T08:00:00.000Z'',
          p_confidence := 0.65 \<rparr>)]"
proof -
  define st where "st = addPattern ''2024-01-10T08:00:00.000Z'' ''Supplier GmbH'' serviceDatePattern emptyStore"
  have rows: "pattern_rows st = [(''Supplier GmbH'', serviceDatePattern)]"
    unfolding st_def by (rule once_added)
  have k: "list_ex (patternKey ''Supplier GmbH'' serviceDatePattern) (pattern_rows st)"
    unfolding rows by (simp add: patternKey_def)
  from conjunct1 [OF C6_upsert_and_confidence [of "''Supplier GmbH''" serviceDatePattern st
      "''2024-01-12T08:00:00.000Z''"]] k
  obtain i where i: "i < length (pattern_rows st)"
    "pattern_rows (addPattern ''2024-01-12T08:00:00.000Z'' ''Supplier GmbH'' serviceDatePattern st)
       = (pattern_rows st)
             [i := (fst (pattern_rows st ! i),
                    (snd (pattern_rows st ! i))
                      \<lparr> p_usageCount := p_usageCount (snd (pattern_rows st ! i)) + 1,
                        lastUsed := ''2024-01-12T08:00:00.000Z'',
                        p_confidence := min 1 (p_confidence (snd (pattern_rows st ! i)) + 0.05) \<rparr>)]"
    by blast
  from i(1) have "i = 0" unfolding rows by simp
  with i(2) show ?thesis
    unfolding st_def [symmetric] rows by (simp add: serviceDatePattern_counters)
qed

text \<open>
  Claim C6 as stated fails. A pattern handed to the store with the confidence 1.5 is
  stored with it, and the reinforcement lowers it to 1. In the SQLite store, a static
  correction whose corrected value is null never matches an existing row, so adding
  it twice gives two rows.
\<close>

theorem C6_confidence_above_one:
  "map (p_confidence \<circ> snd)
     (pattern_rows (addPattern ''2024-01-10T08:00:00.000Z'' ''Parts AG'' highPattern emptyStore)) = [1.5]
   \<and> map (p_confidence \<circ> snd)
     (pattern_rows (addPattern ''2024-01-12T08:00:00.000Z'' ''Parts AG'' highPattern
        (addPattern ''2024-01-10T08:00:00.000Z'' ''Parts AG'' highPattern emptyStore))) = [1]
   \<and> length (static_rows (addStaticCorrection ''Parts AG'' nullRule
        (addStaticCorrection ''Parts AG'' nullRule emptyStore))) = 2"
  by code_simp

subsection \<open>Static SKU corrections\<close>

lemma startsWith_append [simp]: "startsWith (v @ post) v"
  by (induction v) auto

lemma startsWith_iff: "startsWith s v = (\<exists>post. s = v @ post)"
proof (induction s v rule: startsWith.induct)
  case (1 s)
  then show ?case by simp
next
  case (2 v vs)
  then show ?case by simp
next
  case (3 x xs v vs)
  then show ?case by auto
qed

lemma indexOf_append: "indexOf (pre @ v @ post) v \<noteq> None"
proof (induction pre)
  case Nil
  show ?case using startsWith_append [of v post] by (cases "v @ post") auto
next
  case (Cons x pre)
  then show ?case by auto
qed

lemma strIncludes_append: "strIncludes (pre @ v @ post) v"
  by (simp add: strIncludes_def indexOf_append)

lemma strIncludes_nonempty: "strIncludes s v \<Longrightarrow> v \<noteq> [] \<Longrightarrow> s \<noteq> []"
  by (cases s) (auto simp: strIncludes_def)

lemma digitChar_props: "d < 10 \<Longrightarrow> isDigit (digitChar d) \<and> digitVal (digitChar d) = d"
  by (simp add: isDigit_def digitChar_def digitVal_def)

lemma digitsVal_snoc: "digitsVal (ds @ [c]) = 10 * digitsVal ds + digitVal c"
  by (simp add: digitsVal_def)

lemma showNat_props: "list_all isDigit (showNat n) \<and> showNat n \<noteq> [] \<and> digitsVal (showNat n) = n"
proof (induction n rule: showNat.induct)
  case (1 n)
  show ?case
  proof (cases "n < 10")
    case True
    then show ?thesis
      by (subst (1 2 3) showNat.simps) (simp add: digitChar_props digitsVal_def)
  next
    case False
    have d: "n mod 10 < 10" by simp
    from 1 [OF False] digitChar_props [OF d] False show ?thesis
      by (subst (1 2 3) showNat.simps) (simp add: digitsVal_snoc)
  qed
qed

lemma skuIndex_hit:
  "s \<noteq> [] \<Longrightarrow> startsWith s ''lineItems['' \<Longrightarrow> takeWhile isDigit (drop 10 s) = ds \<Longrightarrow> ds \<noteq> [] \<Longrightarrow>
   startsWith (dropWhile isDigit (drop 10 s)) ''].sku'' \<Longrightarrow> skuIndex s = Some (digitsVal ds)"
  by (cases s) (simp_all add: Let_def)

lemma skuIndex_path: "skuIndex (''lineItems['' @ showNat i @ ''].sku'') = Some i"
proof -
  have all: "list_all isDigit (showNat i)" and ne: "showNat i \<noteq> []"
    and val: "digitsVal (showNat i) = i"
    using showNat_props by blast+
  have nd: "\<not> isDigit (CHR '']'')" by (simp add: isDigit_def)
  have dr: "drop 10 (''lineItems['' @ showNat i @ ''].sku'') = showNat i @ ''].sku''" by simp
  have tw: "takeWhile isDigit (drop 10 (''lineItems['' @ showNat i @ ''].sku'')) = showNat i"
    unfolding dr using all nd by (simp add: list_all_iff)
  have dw: "startsWith (dropWhile isDigit (drop 10 (''lineItems['' @ showNat i @ ''].sku''))) ''].sku''"
    unfolding dr using all nd by (simp add: list_all_iff)
  have "skuIndex (''lineItems['' @ showNat i @ ''].sku'') = Some (digitsVal (showNat i))"
    by (rule skuIndex_hit [OF _ startsWith_append tw ne dw]) simp
  then show ?thesis by (simp only: val)
qed

lemma path_includes_sku: "strIncludes (''lineItems['' @ showNat i @ ''].sku'') ''sku''"
  using strIncludes_append [of "''lineItems['' @ showNat i @ ''].''" "''sku''" "[]"] by simp

lemma staticToLearn_path:
  assumes "c_field c = ''lineItems['' @ showNat i @ ''].sku''" "c_to c = JStr s" "s \<noteq> []"
    "i < length (lineItems (inv_fields invoice))"
    "description (lineItems (inv_fields invoice) ! i) = Some d" "d \<noteq> []"
  shows "staticToLearn invoice c =
    Some \<lparr> r_field = ''lineItems.sku'', triggerValue = JStr d, correctedValue = JStr s,
           condition = None, r_confidence = 0.8, r_usageCount = 1 \<rparr>"
proof -
  have a: "skuIndex (c_field c) = Some i" unfolding assms(1) by (rule skuIndex_path)
  have b: "strIncludes (c_field c) ''sku''" unfolding assms(1) by (rule path_includes_sku)
  show ?thesis using assms(2-) by (simp add: staticToLearn_def a b)
qed

lemma learn_static_key:
  assumes "finalDecision humanLog = Approved" "c \<in> set (corrections humanLog)"
    "staticToLearn invoice c = Some r"
  shows "list_ex (staticKey (vendor invoice) r) (static_rows (learn now invoice humanLog st))"
proof -
  from covered_foldl_all [of "corrections humanLog" invoice now st] assms(2)
  have "staticCovered invoice (foldl (learnCorrection now invoice) st (corrections humanLog)) c"
    by (simp add: covered_def)
  then show ?thesis using assms(1,3) by (simp add: staticCovered_def learn_def)
qed

lemma stored_rule_in_memory:
  assumes "list_ex (staticKey v r) (static_rows st)" "triggerValue r = JStr d" "d \<noteq> []"
    "correctedValue r = JStr s"
  shows "\<exists>q\<in>set (staticCorrections (getVendorMemory st v)).
      r_field q = r_field r \<and> triggerValue q = JStr d \<and> correctedValue q = JStr s"
proof -
  from assms(1) obtain row where row: "row \<in> set (static_rows st)" "staticKey v r row"
    by (auto simp: list_ex_iff)
  from row(2) assms(2-) have "fst row = v" "r_field (snd row) = r_field r"
    "triggerValue (snd row) = JStr d" "correctedValue (snd row) = JStr s"
    by (auto simp: staticKey_stored storedStaticKey_def triggerOrNull_def)
  moreover from row(1) \<open>fst row = v\<close> have "snd row \<in> set (staticCorrections (getVendorMemory st v))"
    by (force simp: getVendorMemory_def)
  ultimately show ?thesis by blast
qed

lemma learn_single_fresh:
  assumes "finalDecision humanLog = Approved" "corrections humanLog = [c]"
    "staticToLearn invoice c = Some r" "triggerValue r = JStr d" "d \<noteq> []" "correctedValue r = JStr s"
    "\<not> list_ex (staticKey (vendor invoice) r) (static_rows st)"
  shows "static_rows (learn now invoice humanLog st) = static_rows st @ [(vendor invoice, r)]"
proof -
  have "static_rows (learn now invoice humanLog st)
      = static_rows (addStaticCorrection (vendor invoice) r (learnPattern now invoice c st))"
    using assms(1,2,3) by (simp add: learn_def learnCorrection_def learnStatic_eq)
  also have "\<dots> = static_rows st @ [(vendor invoice, r\<lparr> triggerValue := triggerOrNull (triggerValue r),
                        correctedValue := sqlBind (correctedValue r) \<rparr>)]"
    using assms(7) by (simp add: addStaticCorrection_def)
  also have "r\<lparr> triggerValue := triggerOrNull (triggerValue r),
                        correctedValue := sqlBind (correctedValue r) \<rparr> = r"
    using assms(4,5,6) by (simp add: triggerOrNull_def)
  finally show ?thesis .
qed

text \<open>The line-item branch of a static correction.\<close>

lemma applySkuRule_Cons:
  "applySkuRule r k (it # its) =
     (if skuRuleFires r it
      then (it\<lparr> sku := correctedValue r \<rparr> # fst (applySkuRule r (Suc k) its),
            \<lparr> c_field = ''lineItems['' @ showNat k @ ''].sku'', c_from = sku it,
              c_to = correctedValue r,
              c_reason = MemorySkuMapping (the (description it)) (correctedValue r) \<rparr>
            # snd (applySkuRule r (Suc k) its))
      else (it # fst (applySkuRule r (Suc k) its), snd (applySkuRule r (Suc k) its)))"
  by (simp add: Let_def case_prod_beta)

lemma applySkuRule_length [simp]: "length (fst (applySkuRule r k its)) = length its"
  by (induction its arbitrary: k) (simp_all add: applySkuRule_Cons del: applySkuRule.simps(2))

lemma applySkuRule_nth:
  "j < length its \<Longrightarrow>
   fst (applySkuRule r k its) ! j =
     (if skuRuleFires r (its ! j) then (its ! j)\<lparr> sku := correctedValue r \<rparr> else its ! j)"
proof (induction its arbitrary: k j)
  case Nil
  then show ?case by simp
next
  case (Cons it its)
  show ?case
  proof (cases j)
    case 0
    then show ?thesis by (simp add: applySkuRule_Cons del: applySkuRule.simps(2))
  next
    case (Suc j')
    with Cons.prems have "j' < length its" by simp
    from Cons.IH [OF this, of "Suc k"] Suc show ?thesis
      by (simp add: applySkuRule_Cons del: applySkuRule.simps(2))
  qed
qed

lemma applySkuRule_correction:
  "j < length its \<Longrightarrow> skuRuleFires r (its ! j) \<Longrightarrow>
   \<lparr> c_field = ''lineItems['' @ showNat (k + j) @ ''].sku'', c_from = sku (its ! j),
     c_to = correctedValue r,
     c_reason = MemorySkuMapping (the (description (its ! j))) (correctedValue r) \<rparr>
   \<in> set (snd (applySkuRule r k its))"
proof (induction its arbitrary: k j)
  case Nil
  then show ?case by simp
next
  case (Cons it its)
  show ?case
  proof (cases j)
    case 0
    with Cons.prems show ?thesis by (simp add: applySkuRule_Cons del: applySkuRule.simps(2))
  next
    case (Suc j')
    with Cons.prems have "j' < length its" "skuRuleFires r (its ! j')" by simp_all
    from Cons.IH [OF this, of "Suc k"] have
      "\<lparr> c_field = ''lineItems['' @ showNat (k + j) @ ''].sku'', c_from = sku ((it # its) ! j),
         c_to = correctedValue r,
         c_reason = MemorySkuMapping (the (description ((it # its) ! j))) (correctedValue r) \<rparr>
       \<in> set (snd (applySkuRule r (Suc k) its))"
      unfolding Suc by simp
    then show ?thesis
      by (simp only: applySkuRule_Cons snd_conv set_simps insert_iff if_split) simp
  qed
qed

lemma applyStatic_length [simp]:
  "length (lineItems (normalized (applyStatic w r))) = length (lineItems (normalized w))"
proof (cases "strIncludes (r_field r) ''lineItems''")
  case True
  obtain its' cs where a: "applySkuRule r 0 (lineItems (normalized w)) = (its', cs)" by fastforce
  from applySkuRule_length [of r 0 "lineItems (normalized w)"] a True show ?thesis
    by (simp add: applyStatic_def)
next
  case False
  then show ?thesis by (simp add: applyStatic_def Let_def setFieldValue_def)
qed

lemma applyStatic_keeps_sku:
  assumes "j < length (lineItems (normalized w))" "truthy (sku (lineItems (normalized w) ! j))"
  shows "lineItems (normalized (applyStatic w r)) ! j = lineItems (normalized w) ! j"
proof (cases "strIncludes (r_field r) ''lineItems''")
  case True
  obtain its' cs where a: "applySkuRule r 0 (lineItems (normalized w)) = (its', cs)" by fastforce
  from assms(2) have "\<not> skuRuleFires r (lineItems (normalized w) ! j)"
    by (simp add: skuRuleFires_def)
  with applySkuRule_nth [OF assms(1), of r 0] a True show ?thesis
    by (simp add: applyStatic_def)
next
  case False
  then show ?thesis by (simp add: applyStatic_def Let_def setFieldValue_def)
qed

lemma applyStatic_fires:
  assumes "strIncludes (r_field r) ''lineItems''" "j < length (lineItems (normalized w))"
    "skuRuleFires r (lineItems (normalized w) ! j)"
  shows "sku (lineItems (normalized (applyStatic w r)) ! j) = correctedValue r"
    and "\<lparr> c_field = ''lineItems['' @ showNat j @ ''].sku'', c_from = sku (lineItems (normalized w) ! j),
           c_to = correctedValue r,
           c_reason = MemorySkuMapping (the (description (lineItems (normalized w) ! j))) (correctedValue r) \<rparr>
         \<in> set (proposed (applyStatic w r))"
proof -
  obtain its' cs where a: "applySkuRule r 0 (lineItems (normalized w)) = (its', cs)" by fastforce
  from applySkuRule_nth [OF assms(2), of r 0] a assms(1,3)
  show "sku (lineItems (normalized (applyStatic w r)) ! j) = correctedValue r"
    by (simp add: applyStatic_def)
  from applySkuRule_correction [OF assms(2,3), of 0] a assms(1)
  show "\<lparr> c_field = ''lineItems['' @ showNat j @ ''].sku'', c_from = sku (lineItems (normalized w) ! j),
           c_to = correctedValue r,
           c_reason = MemorySkuMapping (the (description (lineItems (normalized w) ! j))) (correctedValue r) \<rparr>
         \<in> set (proposed (applyStatic w r))"
    by (simp add: applyStatic_def)
qed

lemma applyStatic_proposed: "set (proposed w) \<subseteq> set (proposed (applyStatic w r))"
  by (auto simp: applyStatic_def Let_def split: prod.split)

lemma applyStatics_keeps:
  "j < length (lineItems (normalized w)) \<Longrightarrow> truthy (sku (lineItems (normalized w) ! j)) \<Longrightarrow>
   lineItems (normalized (applyStatics rs w)) ! j = lineItems (normalized w) ! j
   \<and> set (proposed w) \<subseteq> set (proposed (applyStatics rs w))"
  unfolding applyStatics_def
proof (induction rs arbitrary: w)
  case Nil
  then show ?case by simp
next
  case (Cons r rs)
  have k: "lineItems (normalized (applyStatic w r)) ! j = lineItems (normalized w) ! j"
    by (rule applyStatic_keeps_sku [OF Cons.prems])
  have "j < length (lineItems (normalized (applyStatic w r)))"
    "truthy (sku (lineItems (normalized (applyStatic w r)) ! j))"
    using Cons.prems k by simp_all
  from Cons.IH [OF this] k applyStatic_proposed [of w r] show ?case by auto
qed

lemma poMatching_lineItems [simp]:
  "lineItems (normalized (poMatching v refData w)) = lineItems (normalized w)"
  by (simp add: poMatching_def split: option.split)

lemma poMatching_proposed: "set (proposed w) \<subseteq> set (proposed (poMatching v refData w))"
  by (auto simp: poMatching_def split: option.split)

lemma taxValidation_lineItems [simp]:
  "lineItems (normalized (taxValidation raw w)) = lineItems (normalized w)"
  by (simp add: taxValidation_def vatCheck_def sumCheck_def)

lemma taxValidation_proposed_mono: "set (proposed w) \<subseteq> set (proposed (taxValidation raw w))"
  using taxValidation_proposed [of raw w] by auto

lemma process_applies_sku_rule:
  assumes nodup: "\<forall>past\<in>set pastInvoices. \<not> isDuplicateOf invoice past"
    and rules: "staticCorrections (getVendorMemory store (vendor invoice)) = pre @ r # post"
    and r: "r_field r = ''lineItems.sku''" "triggerValue r = JStr t" "t \<noteq> []"
      "correctedValue r = JStr s" "s \<noteq> []"
    and w: "w = applyStatics pre (applyPatterns (rawText invoice)
              (patterns (getVendorMemory store (vendor invoice))) (initial invoice))"
    and item: "j < length (lineItems (normalized w))"
      "description (lineItems (normalized w) ! j) = Some dsc" "strIncludes dsc t"
      "\<not> truthy (sku (lineItems (normalized w) ! j))"
  shows "sku (lineItems (normalizedInvoice (process invoice referenceData pastInvoices store)) ! j) = JStr s"
    and "\<lparr> c_field = ''lineItems['' @ showNat j @ ''].sku'', c_from = sku (lineItems (normalized w) ! j),
           c_to = JStr s, c_reason = MemorySkuMapping dsc (JStr s) \<rparr>
         \<in> set (proposedCorrections (process invoice referenceData pastInvoices store))"
proof -
  let ?w1 = "applyStatic w r"
  have inc: "strIncludes (r_field r) ''lineItems''"
    unfolding r(1) using strIncludes_append [of "[]" "''lineItems''" "''.sku''"] by simp
  have ends: "endsWith (r_field r) ''.sku''"
    unfolding r(1) by (simp add: endsWith_def)
  have fires: "skuRuleFires r (lineItems (normalized w) ! j)"
    using item r(2,3) ends strIncludes_nonempty [OF item(3) r(3)]
    by (simp add: skuRuleFires_def)
  note f = applyStatic_fires [OF inc item(1) fires]
  have am: "afterMemory invoice store = applyStatics post ?w1"
    by (simp add: afterMemory_def applyMemory_def rules w applyStatics_def)
  have j1: "j < length (lineItems (normalized ?w1))" using item(1) by simp
  have t1: "truthy (sku (lineItems (normalized ?w1) ! j))" using f(1) r(4,5) by simp
  note k = applyStatics_keeps [OF j1 t1, of post]
  have eq: "process invoice referenceData pastInvoices store =
      scoring (confidence invoice)
        (taxValidation (rawText invoice)
          (poMatching (vendor invoice) referenceData (applyStatics post ?w1)))"
    using process_not_duplicate [OF nodup, of referenceData store] by (simp add: am)
  show "sku (lineItems (normalizedInvoice (process invoice referenceData pastInvoices store)) ! j) = JStr s"
    using k f(1) r(4) by (simp add: eq scoring_fields)
  have "\<lparr> c_field = ''lineItems['' @ showNat j @ ''].sku'', c_from = sku (lineItems (normalized w) ! j),
           c_to = JStr s, c_reason = MemorySkuMapping dsc (JStr s) \<rparr>
         \<in> set (proposed (applyStatics post ?w1))"
    using f(2) k r(4) item(2) by auto
  then show "\<lparr> c_field = ''lineItems['' @ showNat j @ ''].sku'', c_from = sku (lineItems (normalized w) ! j),
           c_to = JStr s, c_reason = MemorySkuMapping dsc (JStr s) \<rparr>
         \<in> set (proposedCorrections (process invoice referenceData pastInvoices store))"
    using poMatching_proposed taxValidation_proposed_mono
    unfolding eq scoring_fields by blast
qed

lemma hamburg_example:
  "static_rows learnedSeefracht = [(''Freight & Co'', freightRule)]
   \<and> map sku (lineItems (normalizedInvoice (process invHamburg noReference [] learnedSeefracht)))
       = [JStr ''FREIGHT'']
   \<and> proposedCorrections (process invHamburg noReference [] learnedSeefracht) =
       [\<lparr> c_field = ''lineItems[0].sku'', c_from = JNull, c_to = JStr ''FREIGHT'',
          c_reason = MemorySkuMapping ''Seefracht Hamburg'' (JStr ''FREIGHT'') \<rparr>]"
  by code_simp

text \<open>
  Claim C3, as amended. Let an approved log hold a correction with the field path
  \<^verbatim>\<open>lineItems[i].sku\<close> and a non-empty string as target, and let line item \<open>i\<close> of the
  original invoice have a non-empty description. After \<^verbatim>\<open>learn\<close>, the memory of the
  vendor holds a static correction with the field \<^verbatim>\<open>lineItems.sku\<close>, that description
  as trigger and the corrected SKU as value; when the log holds this correction alone
  and the store had no rule with this key, the rule is appended with confidence 0.8
  and usage count 1. Afterwards, for every invoice of the same vendor that is not a
  duplicate, and wherever the rule stands among the vendor's static corrections: every
  line item whose description contains the trigger and whose SKU is still absent when
  the rule is reached has the corrected SKU in the result, and its Correction is
  proposed. The example of the claim is evaluated at the end.
\<close>

theorem C3_sku_mapping:
  assumes approved: "finalDecision humanLog = Approved"
    and c: "c \<in> set (corrections humanLog)" "c_field c = ''lineItems['' @ showNat i @ ''].sku''"
      "c_to c = JStr s" "s \<noteq> []"
    and desc: "i < length (lineItems (inv_fields invoice))"
      "description (lineItems (inv_fields invoice) ! i) = Some d" "d \<noteq> []"
    and store': "store' = learn now invoice humanLog st"
    and later: "vendor invoice2 = vendor invoice"
    and nodup: "\<forall>past\<in>set pastInvoices.
      \<not> (vendor past = vendor invoice2
         \<and> strictEq (props (inv_fields past) ''invoiceNumber'') (props (inv_fields invoice2) ''invoiceNumber'')
         \<and> invoiceId past \<noteq> invoiceId invoice2)"
  shows "(\<exists>q\<in>set (staticCorrections (getVendorMemory store' (vendor invoice))).
            r_field q = ''lineItems.sku'' \<and> triggerValue q = JStr d \<and> correctedValue q = JStr s)
    \<and> (corrections humanLog = [c]
        \<and> (\<forall>row\<in>set (static_rows st).
              \<not> (fst row = vendor invoice \<and> r_field (snd row) = ''lineItems.sku''
                 \<and> triggerValue (snd row) = JStr d \<and> correctedValue (snd row) = JStr s))
        \<longrightarrow> static_rows store' = static_rows st @
              [(vendor invoice,
                \<lparr> r_field = ''lineItems.sku'', triggerValue = JStr d, correctedValue = JStr s,
                  condition = None, r_confidence = 0.8, r_usageCount = 1 \<rparr>)])
    \<and> (\<forall>pre q post j dsc.
          staticCorrections (getVendorMemory store' (vendor invoice2)) = pre @ q # post
          \<and> r_field q = ''lineItems.sku'' \<and> triggerValue q = JStr d \<and> correctedValue q = JStr s
          \<and> j < length (lineItems (normalized (applyStatics pre (applyPatterns (rawText invoice2)
                  (patterns (getVendorMemory store' (vendor invoice2))) (initial invoice2)))))
          \<and> description (lineItems (normalized (applyStatics pre (applyPatterns (rawText invoice2)
                  (patterns (getVendorMemory store' (vendor invoice2))) (initial invoice2)))) ! j) = Some dsc
          \<and> strIncludes dsc d
          \<and> \<not> truthy (sku (lineItems (normalized (applyStatics pre (applyPatterns (rawText invoice2)
                  (patterns (getVendorMemory store' (vendor invoice2))) (initial invoice2)))) ! j))
          \<longrightarrow> sku (lineItems (normalizedInvoice (process invoice2 referenceData pastInvoices store')) ! j) = JStr s
            \<and> \<lparr> c_field = ''lineItems['' @ showNat j @ ''].sku'',
                 c_from = sku (lineItems (normalized (applyStatics pre (applyPatterns (rawText invoice2)
                  (patterns (getVendorMemory store' (vendor invoice2))) (initial invoice2)))) ! j),
                 c_to = JStr s, c_reason = MemorySkuMapping dsc (JStr s) \<rparr>
               \<in> set (proposedCorrections (process invoice2 referenceData pastInvoices store')))
    \<and> static_rows learnedSeefracht = [(''Freight & Co'', freightRule)]
    \<and> map sku (lineItems (normalizedInvoice (process invHamburg noReference [] learnedSeefracht)))
        = [JStr ''FREIGHT'']
    \<and> proposedCorrections (process invHamburg noReference [] learnedSeefracht) =
        [\<lparr> c_field = ''lineItems[0].sku'', c_from = JNull, c_to = JStr ''FREIGHT'',
           c_reason = MemorySkuMapping ''Seefracht Hamburg'' (JStr ''FREIGHT'') \<rparr>]"
proof -
  let ?r = "\<lparr> r_field = ''lineItems.sku'', triggerValue = JStr d, correctedValue = JStr s,
                  condition = None, r_confidence = 0.8, r_usageCount = 1 \<rparr>"
  have tl: "staticToLearn invoice c = Some ?r"
    by (rule staticToLearn_path [OF c(2,3,4) desc])
  have key: "list_ex (staticKey (vendor invoice) ?r) (static_rows store')"
    unfolding store' by (rule learn_static_key [OF approved c(1) tl])
  have a: "\<exists>q\<in>set (staticCorrections (getVendorMemory store' (vendor invoice))).
            r_field q = ''lineItems.sku'' \<and> triggerValue q = JStr d \<and> correctedValue q = JStr s"
    using stored_rule_in_memory [OF key, of d s] desc(3) by simp
  have b: "static_rows store' = static_rows st @ [(vendor invoice, ?r)]"
    if h: "corrections humanLog = [c]"
      "\<forall>row\<in>set (static_rows st).
              \<not> (fst row = vendor invoice \<and> r_field (snd row) = ''lineItems.sku''
                 \<and> triggerValue (snd row) = JStr d \<and> correctedValue (snd row) = JStr s)"
  proof -
    have "\<not> list_ex (staticKey (vendor invoice) ?r) (static_rows st)"
      using h(2) desc(3)
      by (auto simp: list_ex_iff staticKey_stored storedStaticKey_def triggerOrNull_def)
    from learn_single_fresh [OF approved h(1) tl _ desc(3) _ this, of s now] show ?thesis
      by (simp add: store')
  qed
  from nodup have nd: "\<forall>past\<in>set pastInvoices. \<not> isDuplicateOf invoice2 past"
    by (simp add: isDuplicateOf_def)
  have p: "sku (lineItems (normalizedInvoice (process invoice2 referenceData pastInvoices store')) ! j) = JStr s
            \<and> \<lparr> c_field = ''lineItems['' @ showNat j @ ''].sku'',
                 c_from = sku (lineItems (normalized (applyStatics pre (applyPatterns (rawText invoice2)
                  (patterns (getVendorMemory store' (vendor invoice2))) (initial invoice2)))) ! j),
                 c_to = JStr s, c_reason = MemorySkuMapping dsc (JStr s) \<rparr>
               \<in> set (proposedCorrections (process invoice2 referenceData pastInvoices store'))"
    if h: "staticCorrections (getVendorMemory store' (vendor invoice2)) = pre @ q # post
          \<and> r_field q = ''lineItems.sku'' \<and> triggerValue q = JStr d \<and> correctedValue q = JStr s
          \<and> j < length (lineItems (normalized (applyStatics pre (applyPatterns (rawText invoice2)
                  (patterns (getVendorMemory store' (vendor invoice2))) (initial invoice2)))))
          \<and> description (lineItems (normalized (applyStatics pre (applyPatterns (rawText invoice2)
                  (patterns (getVendorMemory store' (vendor invoice2))) (initial invoice2)))) ! j) = Some dsc
          \<and> strIncludes dsc d
          \<and> \<not> truthy (sku (lineItems (normalized (applyStatics pre (applyPatterns (rawText invoice2)
                  (patterns (getVendorMemory store' (vendor invoice2))) (initial invoice2)))) ! j))"
    for pre q post j dsc
  proof -
    from h have h1: "staticCorrections (getVendorMemory store' (vendor invoice2)) = pre @ q # post"
      and h2: "r_field q = ''lineItems.sku''" and h3: "triggerValue q = JStr d"
      and h4: "correctedValue q = JStr s"
      and h5: "j < length (lineItems (normalized (applyStatics pre (applyPatterns (rawText invoice2)
                  (patterns (getVendorMemory store' (vendor invoice2))) (initial invoice2)))))"
      and h6: "description (lineItems (normalized (applyStatics pre (applyPatterns (rawText invoice2)
                  (patterns (getVendorMemory store' (vendor invoice2))) (initial invoice2)))) ! j) = Some dsc"
      and h7: "strIncludes dsc d"
      and h8: "\<not> truthy (sku (lineItems (normalized (applyStatics pre (applyPatterns (rawText invoice2)
                  (patterns (getVendorMemory store' (vendor invoice2))) (initial invoice2)))) ! j))"
      by blast+
    from process_applies_sku_rule [OF nd h1 h2 h3 desc(3) h4 c(4) refl h5 h6 h7 h8, of referenceData]
    show ?thesis by blast
  qed
  from a b p hamburg_example show ?thesis by blast
qed

lemma hamburg_facts:
  "staticCorrections (getVendorMemory learnedSeefracht (vendor invHamburg)) = [] @ freightRule # []
   \<and> lineItems (normalized (applyStatics [] (applyPatterns (rawText invHamburg)
        (patterns (getVendorMemory learnedSeefracht (vendor invHamburg))) (initial invHamburg))))
       = [\<lparr> sku = JNull, description = Some ''Seefracht Hamburg'', qty = 2, unitPrice = 500 \<rparr>]
   \<and> strIncludes ''Seefracht Hamburg'' ''Seefracht''
   \<and> showNat 0 = ''0''"
  by code_simp

theorem C3_sku_mapping_witness:
  "sku (lineItems (normalizedInvoice (process invHamburg noReference [] learnedSeefracht)) ! 0) = JStr ''FREIGHT''
   \<and> \<lparr> c_field = ''lineItems[0].sku'', c_from = JNull, c_to = JStr ''FREIGHT'',
        c_reason = MemorySkuMapping ''Seefracht Hamburg'' (JStr ''FREIGHT'') \<rparr>
      \<in> set (proposedCorrections (process invHamburg noReference [] learnedSeefracht))"
proof -
  define c where "c = \<lparr> c_field = ''lineItems[0].sku'', c_from = JNull, c_to = JStr ''FREIGHT'',
                        c_reason = Human ''SKU assigned'' \<rparr>"
  from hamburg_facts have sn: "showNat 0 = ''0''" by blast
  have 1: "finalDecision logSeefracht = Approved" by (simp add: logSeefracht_def)
  have 2: "c \<in> set (corrections logSeefracht)" by (simp add: logSeefracht_def c_def)
  have 3: "c_field c = ''lineItems['' @ showNat 0 @ ''].sku''" by (simp add: c_def sn)
  have 4: "c_to c = JStr ''FREIGHT''" by (simp add: c_def)
  have 5: "''FREIGHT'' \<noteq> []" by simp
  have 6: "0 < length (lineItems (inv_fields invSeefracht))" by (simp add: invSeefracht_def fieldsOf_def)
  have 7: "description (lineItems (inv_fields invSeefracht) ! 0) = Some ''Seefracht''"
    by (simp add: invSeefracht_def fieldsOf_def)
  have 8: "''Seefracht'' \<noteq> []" by simp
  have 10: "vendor invHamburg = vendor invSeefracht" by (simp add: invHamburg_def invSeefracht_def)
  have 11: "\<forall>past\<in>set [].
      \<not> (vendor past = vendor invHamburg
         \<and> strictEq (props (inv_fields past) ''invoiceNumber'') (props (inv_fields invHamburg) ''invoiceNumber'')
         \<and> invoiceId past \<noteq> invoiceId invHamburg)"
    by simp
  note t = C3_sku_mapping [OF 1 2 3 4 5 6 7 8 learnedSeefracht_def 10 11, of noReference]
  note u = conjunct1 [OF conjunct2 [OF conjunct2 [OF t]], rule_format,
      of "[]" freightRule "[]" 0 "''Seefracht Hamburg''"]
  have pre: "staticCorrections (getVendorMemory learnedSeefracht (vendor invHamburg)) = [] @ freightRule # []"
    using hamburg_facts by blast
  have its: "lineItems (normalized (applyStatics [] (applyPatterns (rawText invHamburg)
        (patterns (getVendorMemory learnedSeefracht (vendor invHamburg))) (initial invHamburg))))
       = [\<lparr> sku = JNull, description = Some ''Seefracht Hamburg'', qty = 2, unitPrice = 500 \<rparr>]"
    using hamburg_facts by blast
  have inc: "strIncludes ''Seefracht Hamburg'' ''Seefracht''" using hamburg_facts by blast
  have "sku (lineItems (normalizedInvoice (process invHamburg noReference [] learnedSeefracht)) ! 0) = JStr ''FREIGHT''
     \<and> \<lparr> c_field = ''lineItems['' @ showNat 0 @ ''].sku'',
          c_from = sku (lineItems (normalized (applyStatics [] (applyPatterns (rawText invHamburg)
              (patterns (getVendorMemory learnedSeefracht (vendor invHamburg))) (initial invHamburg)))) ! 0),
          c_to = JStr ''FREIGHT'', c_reason = MemorySkuMapping ''Seefracht Hamburg'' (JStr ''FREIGHT'') \<rparr>
        \<in> set (proposedCorrections (process invHamburg noReference [] learnedSeefracht))"
    by (rule u) (simp add: pre its inc freightRule_def)
  then show ?thesis unfolding its sn by simp
qed

text \<open>
  Claim C3 as stated fails. After the rule has been learned, an invoice of the vendor
  with a line item described \<^verbatim>\<open>Seefracht Hamburg\<close> and no SKU, submitted a second time,
  is returned as a duplicate with the SKU still missing. And the confidence of the rule
  is 0.8 only until the same correction is learned again.
\<close>

theorem C3_duplicate_keeps_missing_sku:
  "static_rows learnedSeefracht = [(''Freight & Co'', freightRule)]
   \<and> vendor invHamburg = ''Freight & Co''
   \<and> map description (lineItems (inv_fields invHamburg)) = [Some ''Seefracht Hamburg'']
   \<and> map sku (lineItems (inv_fields invHamburg)) = [JNull]
   \<and> map sku (lineItems (normalizedInvoice
        (process invHamburg noReference [invHamburgEarlier] learnedSeefracht))) = [JNull]
   \<and> map c_field (proposedCorrections
        (process invHamburg noReference [invHamburgEarlier] learnedSeefracht)) = [''invoiceNumber'']
   \<and> map (r_confidence \<circ> snd)
        (static_rows (learn ''2024-03-03T09:00:00.000Z'' invSeefracht logSeefracht learnedSeefracht)) = [0.85]"
  by code_simp

subsection \<open>Pattern induction\<close>
















end
